theory Spec2Isabelle
  imports Complex_Main
begin

section \<open>Float values\<close>

text \<open>
  The columns of the DataFrame are float64, and what the program computes from a row is a
  \<^verbatim>\<open>numpy.float64\<close> scalar: a division by zero does not raise, it yields an infinity
  or NaN (with a warning) and the computation goes on. A value that can be the result of
  such a division is modelled as \<open>npfloat\<close>: a finite value as an exact real (no
  rounding, no overflow; \<open>Num 0\<close> is the positive zero), the negative zero, the two
  infinities, and NaN. The operations follow IEEE 754 on the special values (sign of a
  zero or infinite result, NaN for \<open>0/0\<close>, \<open>inf/inf\<close>, \<open>0 * inf\<close>,
  \<open>inf - inf\<close>, every comparison with NaN false) and are exact on finite values.
\<close>

datatype npfloat = Num real | NegZero | PosInf | NegInf | NaN

fun np_zero :: "npfloat \<Rightarrow> bool" where
  "np_zero (Num r) = (r = 0)"
| "np_zero NegZero = True"
| "np_zero x = False"

fun np_inf :: "npfloat \<Rightarrow> bool" where
  "np_inf PosInf = True"
| "np_inf NegInf = True"
| "np_inf x = False"

fun np_negative :: "npfloat \<Rightarrow> bool" where
  "np_negative (Num r) = (r < 0)"
| "np_negative NegZero = True"
| "np_negative NegInf = True"
| "np_negative x = False"

fun np_val :: "npfloat \<Rightarrow> real" where
  "np_val (Num r) = r"
| "np_val x = 0"

definition signed_zero :: "bool \<Rightarrow> npfloat" where
  "signed_zero neg = (if neg then NegZero else Num 0)"

definition signed_inf :: "bool \<Rightarrow> npfloat" where
  "signed_inf neg = (if neg then NegInf else PosInf)"

fun np_neg :: "npfloat \<Rightarrow> npfloat" where
  "np_neg (Num r) = (if r = 0 then NegZero else Num (- r))"
| "np_neg NegZero = Num 0"
| "np_neg PosInf = NegInf"
| "np_neg NegInf = PosInf"
| "np_neg NaN = NaN"

definition np_add :: "npfloat \<Rightarrow> npfloat \<Rightarrow> npfloat" where
  "np_add x y =
     (if x = NaN \<or> y = NaN \<or> (np_inf x \<and> np_inf y \<and> x \<noteq> y) then NaN
      else if np_inf x then x
      else if np_inf y then y
      else if np_zero x \<and> np_zero y then signed_zero (np_negative x \<and> np_negative y)
      else Num (np_val x + np_val y))"

definition np_sub :: "npfloat \<Rightarrow> npfloat \<Rightarrow> npfloat" where
  "np_sub x y = np_add x (np_neg y)"

definition np_mul :: "npfloat \<Rightarrow> npfloat \<Rightarrow> npfloat" where
  "np_mul x y =
     (if x = NaN \<or> y = NaN \<or> (np_zero x \<and> np_inf y) \<or> (np_inf x \<and> np_zero y) then NaN
      else if np_inf x \<or> np_inf y then signed_inf (np_negative x \<noteq> np_negative y)
      else if np_zero x \<or> np_zero y then signed_zero (np_negative x \<noteq> np_negative y)
      else Num (np_val x * np_val y))"

definition np_div :: "npfloat \<Rightarrow> npfloat \<Rightarrow> npfloat" where
  "np_div x y =
     (if x = NaN \<or> y = NaN \<or> (np_zero x \<and> np_zero y) \<or> (np_inf x \<and> np_inf y) then NaN
      else if np_inf x \<or> np_zero y then signed_inf (np_negative x \<noteq> np_negative y)
      else if np_inf y \<or> np_zero x then signed_zero (np_negative x \<noteq> np_negative y)
      else Num (np_val x / np_val y))"

fun np_less :: "npfloat \<Rightarrow> npfloat \<Rightarrow> bool" where
  "np_less NaN y = False"
| "np_less x NaN = False"
| "np_less NegInf NegInf = False"
| "np_less NegInf y = True"
| "np_less x NegInf = False"
| "np_less PosInf y = False"
| "np_less x PosInf = True"
| "np_less x y = (np_val x < np_val y)"

fun np_finite :: "npfloat \<Rightarrow> bool" where
  "np_finite (Num r) = True"
| "np_finite NegZero = True"
| "np_finite x = False"

section \<open>Data model of the backtesting engine\<close>

text \<open>
  Prices, levels, the commission and the result of a trade in price units are finite
  values, modelled as \<^typ>\<open>real\<close>. The percentage result of a trade divides by the
  entry price, and the capital is multiplied by it: both are \<open>npfloat\<close>. The entry
  price of a position is the \<^verbatim>\<open>close\<close> of a row, a \<^verbatim>\<open>numpy.float64\<close>, as
  \<^verbatim>\<open>run_backtest\<close> passes it: at an entry price of zero the percentage is an infinity
  or NaN, the Trade is recorded all the same and the run goes on. (Only a caller that
  hands \<^verbatim>\<open>open_position\<close> and \<^verbatim>\<open>close_position\<close> plain Python floats gets a
  ZeroDivisionError there; then no Trade is recorded.)

  A row of the DataFrame is a \<open>bar\<close>; the column \<^verbatim>\<open>datetime\<close> is a time stamp.
\<close>

type_synonym timestamp = int

record bar =
  datetime :: timestamp
  bar_open :: real
  high :: real
  low :: real
  close :: real
  volume :: real

text \<open>The dataclass \<^verbatim>\<open>Trade\<close>.\<close>

record Trade =
  entry_time :: timestamp
  exit_time :: timestamp
  direction :: string
  entry_price :: real
  exit_price :: real
  stop_loss :: real
  take_profit :: real
  profit_loss :: real
  profit_loss_pct :: npfloat
  exit_reason :: string
  commission_paid :: real

text \<open>
  The dictionary that \<^verbatim>\<open>open_position\<close> stores in \<^verbatim>\<open>current_position\<close>: its six
  keys, prefixed with \<open>pos_\<close> since the Trade record has fields of the same names.
\<close>

record position =
  pos_index :: int
  pos_direction :: string
  pos_entry_price :: real
  pos_stop_loss :: real
  pos_take_profit :: real
  pos_entry_time :: timestamp

text \<open>The attributes of a \<^verbatim>\<open>TechnicalAnalysis\<close> object.\<close>

record engine =
  data :: "bar list"
  initial_capital :: real
  current_capital :: npfloat
  commission_rate :: real
  trades :: "Trade list"
  current_position :: "position option"

datatype error = IndexError | ZeroDivisionError | NotImplementedError | ValueError

text \<open>
  \<^verbatim>\<open>self.data.iloc[index]\<close>: positional access, a negative index counts from the
  end, anything out of range raises IndexError.
\<close>

definition iloc :: "bar list \<Rightarrow> int \<Rightarrow> error + bar" where
  "iloc rows i =
     (let n = int (length rows); j = (if i < 0 then n + i else i)
      in if 0 \<le> j \<and> j < n then Inr (rows ! nat j) else Inl IndexError)"

text \<open>
  \<^verbatim>\<open>__init__\<close>: stores its arguments, capital starts at the initial capital, no
  trade, no position. It checks nothing.
\<close>

definition init :: "bar list \<Rightarrow> real \<Rightarrow> real \<Rightarrow> engine" where
  "init d ic cr =
     \<lparr>data = d, initial_capital = ic, current_capital = Num ic, commission_rate = cr,
      trades = [], current_position = None\<rparr>"

section \<open>Positions\<close>

text \<open>
  \<^verbatim>\<open>open_position\<close> overwrites \<^verbatim>\<open>current_position\<close> without looking at it.
  The only failure is the row access for the entry time.
\<close>

definition open_position ::
  "engine \<Rightarrow> int \<Rightarrow> string \<Rightarrow> real \<Rightarrow> real \<Rightarrow> real \<Rightarrow> error + engine" where
  "open_position s i dir ep sl tp =
     (case iloc (data s) i of
        Inl e \<Rightarrow> Inl e
      | Inr row \<Rightarrow>
          Inr (s\<lparr>current_position :=
                 Some \<lparr>pos_index = i, pos_direction = dir, pos_entry_price = ep,
                       pos_stop_loss = sl, pos_take_profit = tp,
                       pos_entry_time = datetime row\<rparr>\<rparr>))"

text \<open>
  \<^verbatim>\<open>close_position\<close>, in the order of the source: the early return on no position,
  the commission, the gross result by direction (\<^verbatim>\<open>'long'\<close>, anything else is the
  short branch), the net result, the percentage (the division by the entry price, which
  does not raise), the row access for the exit time, then the capital update, the append
  and the reset. The only failure is the row access.
\<close>

definition close_position :: "engine \<Rightarrow> int \<Rightarrow> real \<Rightarrow> string \<Rightarrow> error + engine" where
  "close_position s i xp reason =
     (case current_position s of
        None \<Rightarrow> Inr s
      | Some pos \<Rightarrow>
          (let dir = pos_direction pos;
               ep = pos_entry_price pos;
               commission_total = ep * commission_rate s * 2;
               profit_loss_gross = (if dir = ''long'' then xp - ep else ep - xp);
               profit_loss_net = profit_loss_gross - commission_total;
               pct = np_mul (np_div (Num profit_loss_net) (Num ep)) (Num 100)
           in case iloc (data s) i of
                Inl e \<Rightarrow> Inl e
              | Inr row \<Rightarrow>
                  Inr (s\<lparr>current_capital :=
                           np_mul (current_capital s) (np_add (Num 1) (np_div pct (Num 100))),
                         trades := trades s @
                           [\<lparr>entry_time = pos_entry_time pos,
                             exit_time = datetime row,
                             direction = dir,
                             entry_price = ep,
                             exit_price = xp,
                             stop_loss = pos_stop_loss pos,
                             take_profit = pos_take_profit pos,
                             profit_loss = profit_loss_net,
                             profit_loss_pct = pct,
                             exit_reason = reason,
                             commission_paid = commission_total\<rparr>],
                         current_position := None\<rparr>)))"

text \<open>
  \<^verbatim>\<open>check_exit_conditions\<close> returns \<^verbatim>\<open>(False, None, None)\<close> or
  \<^verbatim>\<open>(True, price, reason)\<close>: \<open>None\<close> and \<open>Some (price, reason)\<close> here. The
  stop-loss test comes first in both branches.
\<close>

definition check_exit_conditions :: "engine \<Rightarrow> int \<Rightarrow> error + (real \<times> string) option" where
  "check_exit_conditions s i =
     (case current_position s of
        None \<Rightarrow> Inr None
      | Some pos \<Rightarrow>
          (case iloc (data s) i of
             Inl e \<Rightarrow> Inl e
           | Inr row \<Rightarrow>
               if pos_direction pos = ''long'' then
                 (if low row \<le> pos_stop_loss pos then Inr (Some (pos_stop_loss pos, ''SL''))
                  else if high row \<ge> pos_take_profit pos
                       then Inr (Some (pos_take_profit pos, ''TP''))
                  else Inr None)
               else
                 (if high row \<ge> pos_stop_loss pos then Inr (Some (pos_stop_loss pos, ''SL''))
                  else if low row \<le> pos_take_profit pos
                       then Inr (Some (pos_take_profit pos, ''TP''))
                  else Inr None)))"

section \<open>The backtest loop\<close>

text \<open>
  \<^verbatim>\<open>generate_signal\<close> is overridden by each strategy. Its result
  \<^verbatim>\<open>(direction, stop_loss, take_profit)\<close> is \<open>None\<close> for
  \<^verbatim>\<open>(None, None, None)\<close> and \<open>Some (direction, stop_loss, take_profit)\<close>
  otherwise. A strategy is a parameter of the loop: a function of the engine and the bar
  index that may fail and does not change the engine. The method of the base class
  raises NotImplementedError.
\<close>

type_synonym signal = "(string \<times> real \<times> real) option"

type_synonym strategy = "engine \<Rightarrow> int \<Rightarrow> error + signal"

definition generate_signal :: strategy where
  "generate_signal s i = Inl NotImplementedError"

text \<open>
  To state what the loop calls and when, the model of \<^verbatim>\<open>run_backtest\<close> keeps a log
  of the method calls it makes, in order. The log is not part of the program: each entry
  is appended where the source has the call. \<open>OpenPosition i held\<close> records whether a
  position was held when \<^verbatim>\<open>open_position\<close> was called at bar \<open>i\<close>.
\<close>

datatype call =
    CheckExit nat
  | GenerateSignal nat
  | OpenPosition nat bool
  | ClosePosition nat string

text \<open>Step 2 of the loop body: the entry check, made only when no position is held.\<close>

definition entry_step ::
  "strategy \<Rightarrow> nat \<Rightarrow> engine \<times> call list \<Rightarrow> error + engine \<times> call list" where
  "entry_step gen i st =
     (case st of (s, cs) \<Rightarrow>
        if current_position s = None then
          (case gen s (int i) of
             Inl e \<Rightarrow> Inl e
           | Inr None \<Rightarrow> Inr (s, cs @ [GenerateSignal i])
           | Inr (Some (dir, sl, tp)) \<Rightarrow>
               (case iloc (data s) (int i) of
                  Inl e \<Rightarrow> Inl e
                | Inr row \<Rightarrow>
                    (case open_position s (int i) dir (close row) sl tp of
                       Inl e \<Rightarrow> Inl e
                     | Inr s' \<Rightarrow>
                         Inr (s', cs @ [GenerateSignal i,
                                         OpenPosition i (current_position s \<noteq> None)]))))
        else Inr (s, cs))"

text \<open>
  The body of the \<^verbatim>\<open>for\<close> loop: the warm-up skip, step 1 (the exit check of a held
  position; a close ends the iteration, the \<^verbatim>\<open>continue\<close>), then step 2.
\<close>

definition bar_iter ::
  "strategy \<Rightarrow> nat \<Rightarrow> engine \<times> call list \<Rightarrow> error + engine \<times> call list" where
  "bar_iter gen i st =
     (case st of (s, cs) \<Rightarrow>
        if i < 200 then Inr (s, cs)
        else if current_position s \<noteq> None then
          (case check_exit_conditions s (int i) of
             Inl e \<Rightarrow> Inl e
           | Inr (Some (xp, reason)) \<Rightarrow>
               (case close_position s (int i) xp reason of
                  Inl e \<Rightarrow> Inl e
                | Inr s' \<Rightarrow> Inr (s', cs @ [CheckExit i, ClosePosition i reason]))
           | Inr None \<Rightarrow> entry_step gen i (s, cs @ [CheckExit i]))
        else entry_step gen i (s, cs))"

fun loop ::
  "strategy \<Rightarrow> nat list \<Rightarrow> engine \<times> call list \<Rightarrow> error + engine \<times> call list" where
  "loop gen [] st = Inr st"
| "loop gen (i # rest) st =
     (case bar_iter gen i st of
        Inl e \<Rightarrow> Inl e
      | Inr st' \<Rightarrow> loop gen rest st')"

text \<open>
  \<^verbatim>\<open>run_backtest\<close>: the header prints read the first and the last row (IndexError on
  an empty series), the loop runs over \<^verbatim>\<open>range(len(self.data))\<close>, and a position
  still held at the end is closed at the last bar's close with reason \<^verbatim>\<open>'End'\<close>.
\<close>

definition run_backtest :: "strategy \<Rightarrow> engine \<Rightarrow> error + engine \<times> call list" where
  "run_backtest gen s =
     (case iloc (data s) 0 of
        Inl e \<Rightarrow> Inl e
      | Inr first_row \<Rightarrow>
     (case iloc (data s) (- 1) of
        Inl e \<Rightarrow> Inl e
      | Inr last_row \<Rightarrow>
     (case loop gen [0 ..< length (data s)] (s, []) of
        Inl e \<Rightarrow> Inl e
      | Inr (s1, cs) \<Rightarrow>
          if current_position s1 \<noteq> None then
            (let last_index = int (length (data s1)) - 1
             in case iloc (data s1) last_index of
                  Inl e \<Rightarrow> Inl e
                | Inr row \<Rightarrow>
                    (case close_position s1 last_index (close row) ''End'' of
                       Inl e \<Rightarrow> Inl e
                     | Inr s2 \<Rightarrow>
                         Inr (s2, cs @ [ClosePosition (nat last_index) ''End''])))
          else Inr (s1, cs))))"

section \<open>Statistics\<close>

text \<open>The dictionary returned by \<^verbatim>\<open>calculate_statistics\<close>.\<close>

record stats =
  total_trades :: nat
  winning_trades :: nat
  losing_trades :: nat
  win_rate :: real
  total_profit_loss :: real
  total_profit_loss_pct :: npfloat
  total_commission_paid :: real
  avg_profit :: real
  avg_loss :: real
  profit_factor :: real
  max_drawdown :: npfloat
  final_capital :: npfloat

text \<open>
  The capital curve starts at the initial capital; each trade appends the last value
  times \<open>1 + profit_loss_pct / 100\<close>.
\<close>

definition capital_curve :: "real \<Rightarrow> Trade list \<Rightarrow> npfloat list" where
  "capital_curve ic ts =
     foldl (\<lambda>curve t.
              curve @ [np_mul (last curve) (np_add (Num 1) (np_div (profit_loss_pct t) (Num 100)))])
       [Num ic] ts"

text \<open>
  The drawdown loop over the curve, with the running peak and the maximum so far.
\<close>

fun drawdown_loop :: "npfloat list \<Rightarrow> npfloat \<Rightarrow> npfloat \<Rightarrow> npfloat" where
  "drawdown_loop [] peak mdd = mdd"
| "drawdown_loop (v # vs) peak mdd =
     (let peak' = (if np_less peak v then v else peak);
          drawdown = np_mul (np_div (np_sub peak' v) peak') (Num 100)
      in drawdown_loop vs peak' (if np_less mdd drawdown then drawdown else mdd))"

definition winning :: "Trade list \<Rightarrow> Trade list" where
  "winning ts = filter (\<lambda>t. profit_loss t > 0) ts"

definition losing :: "Trade list \<Rightarrow> Trade list" where
  "losing ts = filter (\<lambda>t. profit_loss t \<le> 0) ts"

definition total_profit :: "Trade list \<Rightarrow> real" where
  "total_profit ts = sum_list (map profit_loss (winning ts))"

definition total_loss :: "Trade list \<Rightarrow> real" where
  "total_loss ts = \<bar>sum_list (map profit_loss (losing ts))\<bar>"

text \<open>
  \<^verbatim>\<open>calculate_statistics\<close>. The first value of the curve and the first peak are the
  attribute \<^verbatim>\<open>initial_capital\<close> itself, the plain Python float given to the
  constructor: the first iteration of the drawdown loop divides \<open>peak - value = 0.0\<close>
  by it and raises ZeroDivisionError when it is zero. When it is not zero that iteration
  computes a drawdown of zero, as the loop below does, and every later value of the curve
  is a \<^verbatim>\<open>numpy.float64\<close>, whose divisions do not raise. The other divisions are
  guarded (counts, total losses) or divide a \<^verbatim>\<open>numpy.float64\<close>.
\<close>

definition calculate_statistics :: "engine \<Rightarrow> error + stats" where
  "calculate_statistics s =
     (if length (trades s) = 0 then
        Inr \<lparr>total_trades = 0, winning_trades = 0, losing_trades = 0, win_rate = 0,
             total_profit_loss = 0, total_profit_loss_pct = Num 0, total_commission_paid = 0,
             avg_profit = 0, avg_loss = 0, profit_factor = 0, max_drawdown = Num 0,
             final_capital = Num (initial_capital s)\<rparr>
      else
        (let ts = trades s;
             total_commission = sum_list (map commission_paid ts);
             curve = capital_curve (initial_capital s) ts
         in if initial_capital s = 0 then Inl ZeroDivisionError
            else
              (let mdd = drawdown_loop curve (hd curve) (Num 0)
               in Inr \<lparr>total_trades = length ts,
                       winning_trades = length (winning ts),
                       losing_trades = length (losing ts),
                       win_rate =
                         (if ts \<noteq> [] then real (length (winning ts)) / real (length ts) * 100
                          else 0),
                       total_profit_loss = sum_list (map profit_loss ts),
                       total_profit_loss_pct =
                         np_mul (np_div (np_sub (current_capital s) (Num (initial_capital s)))
                                   (Num (initial_capital s)))
                           (Num 100),
                       total_commission_paid = total_commission,
                       avg_profit =
                         (if winning ts \<noteq> [] then total_profit ts / real (length (winning ts))
                          else 0),
                       avg_loss =
                         (if losing ts \<noteq> [] then total_loss ts / real (length (losing ts))
                          else 0),
                       profit_factor =
                         (if total_loss ts > 0 then total_profit ts / total_loss ts else 0),
                       max_drawdown = mdd,
                       final_capital = current_capital s\<rparr>)))"

section \<open>The relative-strength indicator\<close>

text \<open>
  \<^verbatim>\<open>calculate_rsi\<close> works on float64 Series: its divisions by zero yield an
  infinity or NaN.
\<close>

text \<open>
  The pandas operations that \<^verbatim>\<open>calculate_rsi\<close> calls, by their documented behaviour:
  \<^verbatim>\<open>Series.diff()\<close> (NaN at the first position, then current minus previous),
  \<^verbatim>\<open>Series.where(cond, 0)\<close> (keep the value where the condition holds, else 0), and
  \<^verbatim>\<open>Series.ewm(span=period, adjust=False).mean()\<close>: with
  \<open>\<alpha> = 2 / (span + 1)\<close>, \<open>y\<^sub>0 = x\<^sub>0\<close> and
  \<open>y\<^sub>t = (1 - \<alpha>) * y\<^sub>t\<^sub>-\<^sub>1 + \<alpha> * x\<^sub>t\<close>; pandas raises ValueError for a
  span below 1. The prices of the column are finite.
\<close>

fun diff :: "real list \<Rightarrow> npfloat list" where
  "diff [] = []"
| "diff (p # ps) = NaN # map (\<lambda>(prev, cur). np_sub (Num cur) (Num prev)) (zip (p # ps) ps)"

fun ewm_from :: "real \<Rightarrow> npfloat \<Rightarrow> npfloat list \<Rightarrow> npfloat list" where
  "ewm_from \<alpha> y [] = []"
| "ewm_from \<alpha> y (x # xs) =
     (let y' = np_add (np_mul (Num (1 - \<alpha>)) y) (np_mul (Num \<alpha>) x)
      in y' # ewm_from \<alpha> y' xs)"

fun ewm_mean :: "real \<Rightarrow> npfloat list \<Rightarrow> npfloat list" where
  "ewm_mean \<alpha> [] = []"
| "ewm_mean \<alpha> (x # xs) = x # ewm_from \<alpha> x xs"

text \<open>
  The local variables of \<^verbatim>\<open>calculate_rsi\<close>: \<^verbatim>\<open>gain\<close>, \<^verbatim>\<open>loss\<close> (the negation
  turns the replacement value 0 into the negative zero), \<^verbatim>\<open>avg_gain\<close>,
  \<^verbatim>\<open>avg_loss\<close>, and the value \<open>100 - 100 / (1 + rs)\<close> with
  \<open>rs = avg_gain / avg_loss\<close> at one position. The price column is a field of the bars,
  \<^verbatim>\<open>close\<close> by default.
\<close>

definition rsi_gain :: "real list \<Rightarrow> npfloat list" where
  "rsi_gain prices = map (\<lambda>d. if np_less (Num 0) d then d else Num 0) (diff prices)"

definition rsi_loss :: "real list \<Rightarrow> npfloat list" where
  "rsi_loss prices =
     map np_neg (map (\<lambda>d. if np_less d (Num 0) then d else Num 0) (diff prices))"

definition span_alpha :: "int \<Rightarrow> real" where
  "span_alpha period = 2 / (real_of_int period + 1)"

definition rsi_avg_gain :: "int \<Rightarrow> real list \<Rightarrow> npfloat list" where
  "rsi_avg_gain period prices = ewm_mean (span_alpha period) (rsi_gain prices)"

definition rsi_avg_loss :: "int \<Rightarrow> real list \<Rightarrow> npfloat list" where
  "rsi_avg_loss period prices = ewm_mean (span_alpha period) (rsi_loss prices)"

definition rsi_value :: "npfloat \<Rightarrow> npfloat \<Rightarrow> npfloat" where
  "rsi_value g l = (let rs = np_div g l in np_sub (Num 100) (np_div (Num 100) (np_add (Num 1) rs)))"

definition calculate_rsi :: "engine \<Rightarrow> int \<Rightarrow> (bar \<Rightarrow> real) \<Rightarrow> error + npfloat list" where
  "calculate_rsi s period price_column =
     (let prices = map price_column (data s)
      in if period < 1 then Inl ValueError
         else Inr (map (\<lambda>(g, l). rsi_value g l)
                    (zip (rsi_avg_gain period prices) (rsi_avg_loss period prices))))"

section \<open>Notions used to state the properties\<close>

text \<open>
  The capital obtained from an initial capital by applying the percentage result of each
  trade in order, and the bar index of a logged call.
\<close>

definition compounded :: "real \<Rightarrow> Trade list \<Rightarrow> npfloat" where
  "compounded ic ts =
     foldl (\<lambda>c t. np_mul c (np_add (Num 1) (np_div (profit_loss_pct t) (Num 100)))) (Num ic) ts"

fun call_bar :: "call \<Rightarrow> nat" where
  "call_bar (CheckExit i) = i"
| "call_bar (GenerateSignal i) = i"
| "call_bar (OpenPosition i held) = i"
| "call_bar (ClosePosition i reason) = i"

text \<open>
  For the warm-up property: a time stamp is that of a bar of index at least 200, and the
  invariant of the loop built on it (same data, every call at a bar of index at least
  200, every new trade and the held position entered at such a bar).
\<close>

definition warm_entry :: "bar list \<Rightarrow> timestamp \<Rightarrow> bool" where
  "warm_entry d t \<longleftrightarrow> (\<exists>i. 200 \<le> i \<and> i < length d \<and> t = datetime (d ! i))"

definition warm_inv :: "bar list \<Rightarrow> Trade list \<Rightarrow> engine \<times> call list \<Rightarrow> bool" where
  "warm_inv d ts0 st \<longleftrightarrow>
     (case st of (s, cs) \<Rightarrow>
        data s = d
        \<and> (\<forall>c \<in> set cs. 200 \<le> call_bar c)
        \<and> (\<exists>new. trades s = ts0 @ new \<and> (\<forall>t \<in> set new. warm_entry d (entry_time t)))
        \<and> (\<forall>p. current_position s = Some p \<longrightarrow> warm_entry d (pos_entry_time p)))"

text \<open>
  For the exclusion of exit and entry on one bar: the log splits around the exit check
  and the close of bar \<open>j\<close> into calls of earlier bars and calls of later bars; and
  the invariant of the loop before iteration \<open>i\<close> (every call so far is at a bar below
  \<open>i\<close>, every close in the log has such a split, and a close at the last bar leaves
  no position held).
\<close>

definition exit_block :: "nat \<Rightarrow> string \<Rightarrow> call list \<Rightarrow> bool" where
  "exit_block j r cs \<longleftrightarrow>
     (\<exists>pre post. cs = pre @ [CheckExit j, ClosePosition j r] @ post
        \<and> (\<forall>c \<in> set pre. call_bar c < j) \<and> (\<forall>c \<in> set post. j < call_bar c))"

definition exit_inv :: "bar list \<Rightarrow> nat \<Rightarrow> engine \<times> call list \<Rightarrow> bool" where
  "exit_inv d i st \<longleftrightarrow>
     (case st of (s, cs) \<Rightarrow>
        data s = d
        \<and> (\<forall>c \<in> set cs. call_bar c < i)
        \<and> (\<forall>j r. ClosePosition j r \<in> set cs \<longrightarrow> exit_block j r cs)
        \<and> (\<forall>j r. ClosePosition j r \<in> set cs \<longrightarrow> Suc j = i \<longrightarrow> current_position s = None))"

section \<open>A worked example\<close>

text \<open>
  A series of 202 bars: 200 flat warm-up bars, a signal bar that closes at 100, and a bar
  whose range (low 85, high 125) reaches both the stop-loss 90 and the take-profit 120 of
  the long position opened on the signal bar. The strategy signals at bar 200 only.
\<close>

definition example_bar :: "timestamp \<Rightarrow> real \<Rightarrow> real \<Rightarrow> real \<Rightarrow> bar" where
  "example_bar t h l c =
     \<lparr>datetime = t, bar_open = c, high = h, low = l, close = c, volume = 0\<rparr>"

definition example_data :: "bar list" where
  "example_data =
     map (\<lambda>i. example_bar (int i) 100 100 100) [0 ..< 200]
     @ [example_bar 200 101 99 100, example_bar 201 125 85 95]"

definition example_strategy :: strategy where
  "example_strategy s i = (if i = 200 then Inr (Some (''long'', 90, 120)) else Inr None)"

definition example_long :: position where
  "example_long =
     \<lparr>pos_index = 200, pos_direction = ''long'', pos_entry_price = 100,
      pos_stop_loss = 90, pos_take_profit = 120, pos_entry_time = 200\<rparr>"

definition example_short :: position where
  "example_short =
     \<lparr>pos_index = 200, pos_direction = ''short'', pos_entry_price = 100,
      pos_stop_loss = 110, pos_take_profit = 86, pos_entry_time = 200\<rparr>"

definition example_engine :: engine where
  "example_engine = init example_data 1000 (1 / 100)"

definition example_trade :: Trade where
  "example_trade =
     \<lparr>entry_time = 200, exit_time = 201, direction = ''long'', entry_price = 100,
      exit_price = 90, stop_loss = 90, take_profit = 120, profit_loss = - 12,
      profit_loss_pct = Num (- 12), exit_reason = ''SL'', commission_paid = 2\<rparr>"

text \<open>
  A second series whose signal bar closes at 0: the short position opened there (stop-loss
  1, take-profit -2) is stopped out at the next bar, whose high is 1. Its entry price is
  zero, so the percentage result of the trade and the capital after it are infinite.
\<close>

definition example_zero_data :: "bar list" where
  "example_zero_data =
     map (\<lambda>i. example_bar (int i) 1 1 1) [0 ..< 200]
     @ [example_bar 200 1 0 0, example_bar 201 1 0 0]"

definition example_zero_strategy :: strategy where
  "example_zero_strategy s i = (if i = 200 then Inr (Some (''short'', 1, - 2)) else Inr None)"

definition example_zero_short :: position where
  "example_zero_short =
     \<lparr>pos_index = 200, pos_direction = ''short'', pos_entry_price = 0,
      pos_stop_loss = 1, pos_take_profit = - 2, pos_entry_time = 200\<rparr>"

definition example_zero_engine :: engine where
  "example_zero_engine = init example_zero_data 1000 (1 / 100)"

definition example_zero_trade :: Trade where
  "example_zero_trade =
     \<lparr>entry_time = 200, exit_time = 201, direction = ''short'', entry_price = 0,
      exit_price = 1, stop_loss = 1, take_profit = - 2, profit_loss = - 1,
      profit_loss_pct = NegInf, exit_reason = ''SL'', commission_paid = 0\<rparr>"

text \<open>A winning trade, for the statistics, and a short price series for the indicator.\<close>

definition example_win :: Trade where
  "example_win =
     \<lparr>entry_time = 200, exit_time = 201, direction = ''long'', entry_price = 100,
      exit_price = 120, stop_loss = 90, take_profit = 120, profit_loss = 18,
      profit_loss_pct = Num 18, exit_reason = ''TP'', commission_paid = 2\<rparr>"

definition example_prices :: "bar list" where
  "example_prices =
     [example_bar 0 100 100 100, example_bar 1 101 101 101,
      example_bar 2 101 101 101, example_bar 3 99 99 99]"

definition example_flat :: "bar list" where
  "example_flat = [example_bar 0 100 100 100, example_bar 1 100 100 100]"

section \<open>Properties\<close>

lemma np_add_Num: "np_add (Num a) (Num b) = Num (a + b)"
  by (simp add: np_add_def signed_zero_def)

lemma np_sub_Num: "np_sub (Num a) (Num b) = Num (a - b)"
  by (simp add: np_sub_def np_add_def signed_zero_def)

lemma np_mul_Num: "0 \<le> a \<Longrightarrow> 0 \<le> b \<Longrightarrow> np_mul (Num a) (Num b) = Num (a * b)"
  by (auto simp: np_mul_def signed_zero_def)

lemma np_div_Num:
  "b \<noteq> 0 \<Longrightarrow> np_div (Num a) (Num b) = (if a = 0 then signed_zero (b < 0) else Num (a / b))"
  by (simp add: np_div_def)

lemma np_finite_cases:
  assumes "np_finite x"
  obtains r where "x = Num r" | "x = NegZero"
  using assms by (cases x) simp_all

lemma np_add_finite:
  assumes "np_finite x" and "np_finite y"
  shows "np_finite (np_add x y) \<and> np_val (np_add x y) = np_val x + np_val y"
  using assms
  by (auto elim!: np_finite_cases simp: np_add_def signed_zero_def)

lemma np_mul_finite:
  assumes "np_finite x" and "np_finite y"
  shows "np_finite (np_mul x y) \<and> np_val (np_mul x y) = np_val x * np_val y"
  using assms
  by (auto elim!: np_finite_cases simp: np_mul_def signed_zero_def)

lemma np_div_finite:
  assumes "np_finite x" and "c \<noteq> 0"
  shows "np_finite (np_div x (Num c)) \<and> np_val (np_div x (Num c)) = np_val x / c"
  using assms
  by (auto elim!: np_finite_cases simp: np_div_def signed_zero_def)

text \<open>
  C1. For a held position and a bar in range whose low and high satisfy both exits (long:
  low at or below the stop-loss and high at or above the take-profit; any other direction,
  the short branch: high at or above the stop-loss and low at or below the take-profit),
  \<^verbatim>\<open>check_exit_conditions\<close> reports an exit at the stop-loss price with reason SL.
\<close>

theorem check_exit_sl_first:
  assumes "current_position s = Some pos" and "iloc (data s) i = Inr row"
    and "(pos_direction pos = ''long'' \<and> low row \<le> pos_stop_loss pos \<and> high row \<ge> pos_take_profit pos)
       \<or> (pos_direction pos \<noteq> ''long'' \<and> high row \<ge> pos_stop_loss pos \<and> low row \<le> pos_take_profit pos)"
  shows "check_exit_conditions s i = Inr (Some (pos_stop_loss pos, ''SL''))"
  using assms by (auto simp: check_exit_conditions_def)

lemma close_position_SomeE:
  assumes "current_position s = Some pos" and "close_position s i xp reason = Inr s'"
  obtains row net pct where "iloc (data s) i = Inr row"
    and "net = (if pos_direction pos = ''long'' then xp - pos_entry_price pos
                else pos_entry_price pos - xp)
               - pos_entry_price pos * commission_rate s * 2"
    and "pct = np_mul (np_div (Num net) (Num (pos_entry_price pos))) (Num 100)"
    and "s' = s\<lparr>current_capital :=
                 np_mul (current_capital s) (np_add (Num 1) (np_div pct (Num 100))),
               trades := trades s @
                 [\<lparr>entry_time = pos_entry_time pos,
                   exit_time = datetime row,
                   direction = pos_direction pos,
                   entry_price = pos_entry_price pos,
                   exit_price = xp,
                   stop_loss = pos_stop_loss pos,
                   take_profit = pos_take_profit pos,
                   profit_loss = net,
                   profit_loss_pct = pct,
                   exit_reason = reason,
                   commission_paid = pos_entry_price pos * commission_rate s * 2\<rparr>],
               current_position := None\<rparr>"
proof (cases "iloc (data s) i")
  case (Inl e)
  with assms show thesis
    by (simp add: close_position_def Let_def)
next
  case (Inr row)
  show thesis
  proof (rule that [OF Inr refl refl])
    from assms Inr show "s' = s\<lparr>current_capital :=
         np_mul (current_capital s)
           (np_add (Num 1)
              (np_div
                 (np_mul
                    (np_div
                       (Num ((if pos_direction pos = ''long'' then xp - pos_entry_price pos
                              else pos_entry_price pos - xp)
                             - pos_entry_price pos * commission_rate s * 2))
                       (Num (pos_entry_price pos)))
                    (Num 100))
                 (Num 100))),
               trades := trades s @
                 [\<lparr>entry_time = pos_entry_time pos,
                   exit_time = datetime row,
                   direction = pos_direction pos,
                   entry_price = pos_entry_price pos,
                   exit_price = xp,
                   stop_loss = pos_stop_loss pos,
                   take_profit = pos_take_profit pos,
                   profit_loss = (if pos_direction pos = ''long'' then xp - pos_entry_price pos
                      else pos_entry_price pos - xp)
                     - pos_entry_price pos * commission_rate s * 2,
                   profit_loss_pct =
                     np_mul
                       (np_div
                          (Num ((if pos_direction pos = ''long'' then xp - pos_entry_price pos
                                 else pos_entry_price pos - xp)
                                - pos_entry_price pos * commission_rate s * 2))
                          (Num (pos_entry_price pos)))
                       (Num 100),
                   exit_reason = reason,
                   commission_paid = pos_entry_price pos * commission_rate s * 2\<rparr>],
               current_position := None\<rparr>"
      by (simp add: close_position_def Let_def)
  qed
qed

lemma close_position_returns:
  assumes "current_position s = Some pos" and "iloc (data s) i = Inr row"
  shows "\<exists>s'. close_position s i xp reason = Inr s'"
  using assms by (simp add: close_position_def Let_def)

lemma percentage_finite:
  assumes "ep \<noteq> 0"
  shows "np_finite (np_mul (np_div (Num net) (Num ep)) (Num 100))
         \<and> np_val (np_mul (np_div (Num net) (Num ep)) (Num 100)) = net / ep * 100"
proof -
  from np_div_finite [of "Num net" ep] assms
  have d: "np_finite (np_div (Num net) (Num ep))" "np_val (np_div (Num net) (Num ep)) = net / ep"
    by simp_all
  from np_mul_finite [OF d(1), of "Num 100"] d(2) show ?thesis by simp
qed

text \<open>
  C2. On a held position and a row index in range, \<^verbatim>\<open>close_position\<close> returns and
  appends exactly one Trade. Its commission is entry price times commission rate times 2,
  its profit_loss is the gross result (exit minus entry for long, entry minus exit
  otherwise) minus that commission, and its profit_loss_pct is the float value of
  profit_loss divided by the entry price, times 100: for a non-zero entry price the
  finite number \<open>profit_loss / entry_price * 100\<close>, for a zero entry price an
  infinity or NaN.
\<close>

theorem close_position_trade:
  assumes "current_position s = Some pos" and "iloc (data s) i = Inr row"
  shows "\<exists>s' t. close_position s i xp reason = Inr s' \<and> trades s' = trades s @ [t]
          \<and> entry_price t = pos_entry_price pos \<and> exit_price t = xp
          \<and> direction t = pos_direction pos
          \<and> commission_paid t = entry_price t * commission_rate s * 2
          \<and> profit_loss t =
               (if direction t = ''long'' then exit_price t - entry_price t
                else entry_price t - exit_price t) - commission_paid t
          \<and> profit_loss_pct t =
               np_mul (np_div (Num (profit_loss t)) (Num (entry_price t))) (Num 100)
          \<and> (entry_price t \<noteq> 0 \<longrightarrow>
                np_finite (profit_loss_pct t)
                \<and> np_val (profit_loss_pct t) = profit_loss t / entry_price t * 100)"
proof -
  define ep where "ep = pos_entry_price pos"
  define net where
    "net = (if pos_direction pos = ''long'' then xp - ep else ep - xp) - ep * commission_rate s * 2"
  define pct where "pct = np_mul (np_div (Num net) (Num ep)) (Num 100)"
  define t where
    "t = \<lparr>entry_time = pos_entry_time pos, exit_time = datetime row,
          direction = pos_direction pos, entry_price = ep, exit_price = xp,
          stop_loss = pos_stop_loss pos, take_profit = pos_take_profit pos,
          profit_loss = net, profit_loss_pct = pct, exit_reason = reason,
          commission_paid = ep * commission_rate s * 2\<rparr>"
  define s' where
    "s' = s\<lparr>current_capital := np_mul (current_capital s) (np_add (Num 1) (np_div pct (Num 100))),
            trades := trades s @ [t], current_position := None\<rparr>"
  have ret: "close_position s i xp reason = Inr s'"
    using assms by (simp add: close_position_def Let_def s'_def t_def pct_def net_def ep_def)
  have fields: "entry_price t = ep" "exit_price t = xp" "direction t = pos_direction pos"
    "commission_paid t = ep * commission_rate s * 2" "profit_loss t = net"
    "profit_loss_pct t = pct"
    by (simp_all add: t_def)
  have tr: "trades s' = trades s @ [t]" by (simp add: s'_def)
  have fin: "ep \<noteq> 0 \<longrightarrow> np_finite pct \<and> np_val pct = net / ep * 100"
    unfolding pct_def using percentage_finite [of ep net] by blast
  have "close_position s i xp reason = Inr s' \<and> trades s' = trades s @ [t]
          \<and> entry_price t = pos_entry_price pos \<and> exit_price t = xp
          \<and> direction t = pos_direction pos
          \<and> commission_paid t = entry_price t * commission_rate s * 2
          \<and> profit_loss t =
               (if direction t = ''long'' then exit_price t - entry_price t
                else entry_price t - exit_price t) - commission_paid t
          \<and> profit_loss_pct t =
               np_mul (np_div (Num (profit_loss t)) (Num (entry_price t))) (Num 100)
          \<and> (entry_price t \<noteq> 0 \<longrightarrow>
                np_finite (profit_loss_pct t)
                \<and> np_val (profit_loss_pct t) = profit_loss t / entry_price t * 100)"
    unfolding fields using ret tr fin by (simp add: ep_def net_def pct_def)
  then show ?thesis by blast
qed

text \<open>
  C10. With no position held, \<^verbatim>\<open>close_position\<close> returns at once, whatever the index,
  price and reason: no error, and the engine (trades, capital, position) is unchanged.
\<close>

theorem close_position_flat_noop:
  "current_position s = None \<Longrightarrow> close_position s i xp reason = Inr s"
  by (simp add: close_position_def)

lemma iloc_nat:
  assumes "iloc rows (int i) = Inr row"
  shows "i < length rows \<and> row = rows ! i"
  using assms by (auto simp: iloc_def Let_def split: if_splits)

lemma open_position_InrE:
  assumes "open_position s i dir ep sl tp = Inr s'"
  obtains row where "iloc (data s) i = Inr row"
    and "s' = s\<lparr>current_position :=
                 Some \<lparr>pos_index = i, pos_direction = dir, pos_entry_price = ep,
                       pos_stop_loss = sl, pos_take_profit = tp,
                       pos_entry_time = datetime row\<rparr>\<rparr>"
  using assms by (auto simp: open_position_def split: sum.splits)

lemma entry_step_cases:
  assumes "entry_step gen i (s, cs) = Inr (s', cs')"
  obtains
    (held) "current_position s \<noteq> None" and "s' = s" and "cs' = cs"
  | (idle) "current_position s = None" and "gen s (int i) = Inr None"
      and "s' = s" and "cs' = cs @ [GenerateSignal i]"
  | (enter) dir sl tp row where "current_position s = None"
      and "gen s (int i) = Inr (Some (dir, sl, tp))"
      and "iloc (data s) (int i) = Inr row"
      and "open_position s (int i) dir (close row) sl tp = Inr s'"
      and "cs' = cs @ [GenerateSignal i, OpenPosition i False]"
proof (cases "current_position s")
  case (Some pos)
  with assms have "s' = s" and "cs' = cs" by (simp_all add: entry_step_def)
  moreover from Some have "current_position s \<noteq> None" by simp
  ultimately show thesis by (intro held)
next
  case None
  show thesis
  proof (cases "gen s (int i)")
    case (Inl e)
    with None assms have False by (simp add: entry_step_def)
    then show thesis ..
  next
    case (Inr sg)
    show thesis
    proof (cases sg)
      case no: None
      with None Inr assms have "s' = s" and "cs' = cs @ [GenerateSignal i]"
        by (simp_all add: entry_step_def)
      moreover from Inr no have "gen s (int i) = Inr None" by simp
      ultimately show thesis using None by (intro idle)
    next
      case (Some d)
      obtain dir sl tp where d: "d = (dir, sl, tp)" by (cases d)
      have g: "gen s (int i) = Inr (Some (dir, sl, tp))" using Inr Some d by simp
      show thesis
      proof (cases "iloc (data s) (int i)")
        case (Inl e)
        with None g assms have False by (simp add: entry_step_def)
        then show thesis ..
      next
        case row: (Inr row)
        show thesis
        proof (cases "open_position s (int i) dir (close row) sl tp")
          case (Inl e)
          with None g row assms have False by (simp add: entry_step_def)
          then show thesis ..
        next
          case op: (Inr s2)
          with None g row assms have "s' = s2"
            and c: "cs' = cs @ [GenerateSignal i, OpenPosition i False]"
            by (simp_all add: entry_step_def)
          with op have "open_position s (int i) dir (close row) sl tp = Inr s'" by simp
          then show thesis using None g row c by (intro enter)
        qed
      qed
    qed
  qed
qed

lemma bar_iter_cases:
  assumes "bar_iter gen i (s, cs) = Inr (s', cs')"
  obtains
    (skip) "i < 200" and "s' = s" and "cs' = cs"
  | (exit) pos xp reason where "200 \<le> i" and "current_position s = Some pos"
      and "check_exit_conditions s (int i) = Inr (Some (xp, reason))"
      and "close_position s (int i) xp reason = Inr s'"
      and "cs' = cs @ [CheckExit i, ClosePosition i reason]"
  | (hold) pos where "200 \<le> i" and "current_position s = Some pos"
      and "check_exit_conditions s (int i) = Inr None"
      and "s' = s" and "cs' = cs @ [CheckExit i]"
  | (idle) "200 \<le> i" and "current_position s = None" and "gen s (int i) = Inr None"
      and "s' = s" and "cs' = cs @ [GenerateSignal i]"
  | (enter) dir sl tp row where "200 \<le> i" and "current_position s = None"
      and "gen s (int i) = Inr (Some (dir, sl, tp))"
      and "iloc (data s) (int i) = Inr row"
      and "open_position s (int i) dir (close row) sl tp = Inr s'"
      and "cs' = cs @ [GenerateSignal i, OpenPosition i False]"
proof (cases "i < 200")
  case True
  with assms have "s' = s" and "cs' = cs" by (simp_all add: bar_iter_def)
  with True show thesis by (intro that(1))
next
  case False
  then have ge: "200 \<le> i" by simp
  show thesis
  proof (cases "current_position s")
    case None
    with False assms have es: "entry_step gen i (s, cs) = Inr (s', cs')"
      by (simp add: bar_iter_def)
    from es show thesis
    proof (cases rule: entry_step_cases)
      case held
      with None show thesis by simp
    next
      case idle
      with ge show thesis by (intro that(4))
    next
      case (enter dir sl tp row)
      with ge show thesis by (intro that(5))
    qed
  next
    case (Some pos)
    show thesis
    proof (cases "check_exit_conditions s (int i)")
      case (Inl e)
      with False Some assms have False by (simp add: bar_iter_def)
      then show thesis ..
    next
      case (Inr r)
      show thesis
      proof (cases r)
        case None
        with Inr have ce: "check_exit_conditions s (int i) = Inr None" by simp
        with False Some assms
        have es: "entry_step gen i (s, cs @ [CheckExit i]) = Inr (s', cs')"
          by (simp add: bar_iter_def)
        from es show thesis
        proof (cases rule: entry_step_cases)
          case held
          with ge Some ce show thesis by (intro that(3))
        next
          case idle
          with Some show thesis by simp
        next
          case (enter dir sl tp row)
          with Some show thesis by simp
        qed
      next
        case sm: (Some xr)
        obtain xp reason where xr: "xr = (xp, reason)" by (cases xr)
        with sm Inr have ce: "check_exit_conditions s (int i) = Inr (Some (xp, reason))"
          by simp
        show thesis
        proof (cases "close_position s (int i) xp reason")
          case (Inl e)
          with ce False Some assms have False by (simp add: bar_iter_def)
          then show thesis ..
        next
          case cl: (Inr s2)
          with ce False Some assms have "s' = s2"
            and c: "cs' = cs @ [CheckExit i, ClosePosition i reason]"
            by (simp_all add: bar_iter_def)
          with cl have "close_position s (int i) xp reason = Inr s'" by simp
          then show thesis using ge Some ce c by (intro that(2))
        qed
      qed
    qed
  qed
qed

lemma loop_invariant:
  assumes "loop gen bars st = Inr st'" and "P st"
    and "\<And>i a b. i \<in> set bars \<Longrightarrow> P a \<Longrightarrow> bar_iter gen i a = Inr b \<Longrightarrow> P b"
  shows "P st'"
  using assms
proof (induction bars arbitrary: st)
  case Nil
  then show ?case by simp
next
  case (Cons i rest)
  from Cons.prems(1) obtain mid where mid: "bar_iter gen i st = Inr mid"
    and rest: "loop gen rest mid = Inr st'"
    by (auto split: sum.splits)
  from Cons.prems(3) [of i st mid] Cons.prems(2) mid have "P mid" by simp
  show ?case
  proof (rule Cons.IH [OF rest \<open>P mid\<close>])
    fix j a b
    assume "j \<in> set rest" and "P a" and "bar_iter gen j a = Inr b"
    then show "P b" using Cons.prems(3) [of j a b] by simp
  qed
qed

lemma close_position_Some:
  assumes "current_position s = Some pos" and "close_position s i xp reason = Inr s'"
  shows "data s' = data s" and "initial_capital s' = initial_capital s"
    and "commission_rate s' = commission_rate s" and "current_position s' = None"
    and "\<exists>t. trades s' = trades s @ [t] \<and> entry_time t = pos_entry_time pos
           \<and> exit_reason t = reason
           \<and> current_capital s' =
               np_mul (current_capital s) (np_add (Num 1) (np_div (profit_loss_pct t) (Num 100)))"
proof -
  show "data s' = data s"
    by (cases rule: close_position_SomeE [OF assms]) simp
  show "initial_capital s' = initial_capital s"
    by (cases rule: close_position_SomeE [OF assms]) simp
  show "commission_rate s' = commission_rate s"
    by (cases rule: close_position_SomeE [OF assms]) simp
  show "current_position s' = None"
    by (cases rule: close_position_SomeE [OF assms]) simp
  show "\<exists>t. trades s' = trades s @ [t] \<and> entry_time t = pos_entry_time pos
           \<and> exit_reason t = reason
           \<and> current_capital s' =
               np_mul (current_capital s) (np_add (Num 1) (np_div (profit_loss_pct t) (Num 100)))"
  proof (cases rule: close_position_SomeE [OF assms])
    case (1 row net pct)
    show ?thesis unfolding 1(4) by simp
  qed
qed

lemma open_position_fields:
  assumes "open_position s (int i) dir ep sl tp = Inr s'"
  shows "data s' = data s" and "initial_capital s' = initial_capital s"
    and "current_capital s' = current_capital s" and "trades s' = trades s"
    and "\<exists>p. current_position s' = Some p \<and> i < length (data s)
           \<and> pos_entry_time p = datetime (data s ! i)"
proof -
  from assms obtain row where row: "iloc (data s) (int i) = Inr row"
    and s': "s' = s\<lparr>current_position :=
                 Some \<lparr>pos_index = int i, pos_direction = dir, pos_entry_price = ep,
                       pos_stop_loss = sl, pos_take_profit = tp,
                       pos_entry_time = datetime row\<rparr>\<rparr>"
    by (rule open_position_InrE)
  from iloc_nat [OF row] have r: "i < length (data s)" "row = data s ! i" by simp_all
  show "data s' = data s" "initial_capital s' = initial_capital s"
    "current_capital s' = current_capital s" "trades s' = trades s"
    by (simp_all add: s')
  show "\<exists>p. current_position s' = Some p \<and> i < length (data s)
           \<and> pos_entry_time p = datetime (data s ! i)"
    using r by (simp add: s')
qed

lemma compounded_snoc:
  "compounded ic (ts @ [t]) =
     np_mul (compounded ic ts) (np_add (Num 1) (np_div (profit_loss_pct t) (Num 100)))"
  by (simp add: compounded_def)

lemma bar_iter_capital:
  assumes "bar_iter gen i (s, cs) = Inr (s', cs')"
    and "current_capital s = compounded ic (trades s)"
  shows "current_capital s' = compounded ic (trades s')"
  using assms(1)
proof (cases rule: bar_iter_cases)
  case (exit pos xp reason)
  from close_position_Some(5) [OF exit(2) exit(4)] assms(2) show ?thesis
    by (auto simp: compounded_snoc)
next
  case (enter dir sl tp row)
  from open_position_fields(3,4) [OF enter(5)] assms(2) show ?thesis by simp
qed (use assms(2) in simp_all)

lemma loop_capital:
  assumes "loop gen bars (s, cs) = Inr (s', cs')"
    and "current_capital s = compounded ic (trades s)"
  shows "current_capital s' = compounded ic (trades s')"
proof -
  let ?P = "\<lambda>st. current_capital (fst st) = compounded ic (trades (fst st))"
  have "?P (s', cs')"
  proof (rule loop_invariant [where P = ?P, OF assms(1)])
    show "?P (s, cs)" using assms(2) by simp
  next
    fix i a b
    assume "?P a" and "bar_iter gen i a = Inr b"
    then show "?P b"
      using bar_iter_capital [of gen i "fst a" "snd a" "fst b" "snd b" ic] by simp
  qed
  then show ?thesis by simp
qed

lemma run_backtest_cases:
  assumes "run_backtest gen s = Inr (s', cs')"
  obtains
    (flat) "data s \<noteq> []" and "loop gen [0 ..< length (data s)] (s, []) = Inr (s', cs')"
      and "current_position s' = None"
  | (forced) s1 cs pos row where "data s \<noteq> []"
      and "loop gen [0 ..< length (data s)] (s, []) = Inr (s1, cs)"
      and "current_position s1 = Some pos"
      and "iloc (data s1) (int (length (data s1)) - 1) = Inr row"
      and "close_position s1 (int (length (data s1)) - 1) (close row) ''End'' = Inr s'"
      and "cs' = cs @ [ClosePosition (nat (int (length (data s1)) - 1)) ''End'']"
proof -
  have ne: "data s \<noteq> []"
    using assms by (auto simp: run_backtest_def iloc_def split: sum.splits if_splits)
  then have hdr: "iloc (data s) 0 = Inr (data s ! 0)"
    "iloc (data s) (- 1) = Inr (data s ! nat (int (length (data s)) - 1))"
    by (simp_all add: iloc_def Let_def)
  show thesis
  proof (cases "loop gen [0 ..< length (data s)] (s, [])")
    case (Inl e)
    with assms hdr have False by (simp add: run_backtest_def)
    then show thesis ..
  next
    case (Inr st)
    obtain s1 cs where st: "st = (s1, cs)" by (cases st)
    show thesis
    proof (cases "current_position s1")
      case None
      with Inr st assms hdr have "s' = s1" and "cs' = cs" by (simp_all add: run_backtest_def)
      with Inr st None ne show thesis by (intro that(1)) simp_all
    next
      case (Some pos)
      show thesis
      proof (cases "iloc (data s1) (int (length (data s1)) - 1)")
        case (Inl e)
        with Some Inr st assms hdr have False by (simp add: run_backtest_def)
        then show thesis ..
      next
        case row: (Inr row)
        show thesis
        proof (cases "close_position s1 (int (length (data s1)) - 1) (close row) ''End''")
          case (Inl e)
          with row Some Inr st assms hdr have False by (simp add: run_backtest_def)
          then show thesis ..
        next
          case cl: (Inr s2)
          with row Some Inr st assms hdr have "s' = s2"
            and c: "cs' = cs @ [ClosePosition (nat (int (length (data s1)) - 1)) ''End'']"
            by (simp_all add: run_backtest_def)
          with cl have "close_position s1 (int (length (data s1)) - 1) (close row) ''End'' = Inr s'"
            by simp
          then show thesis using ne Inr st Some row c by (intro that(2)) simp_all
        qed
      qed
    qed
  qed
qed

lemma run_backtest_capital_inv:
  assumes "run_backtest gen s = Inr (s', cs')"
    and "current_capital s = compounded ic (trades s)"
  shows "current_capital s' = compounded ic (trades s')"
  using assms(1)
proof (cases rule: run_backtest_cases)
  case flat
  from loop_capital [OF flat(2) assms(2)] show ?thesis .
next
  case (forced s1 cs pos row)
  from loop_capital [OF forced(2) assms(2)]
  have "current_capital s1 = compounded ic (trades s1)" .
  with close_position_Some(5) [OF forced(3) forced(5)] show ?thesis
    by (auto simp: compounded_snoc)
qed

lemma iloc_in_range: "i < length rows \<Longrightarrow> iloc rows (int i) = Inr (rows ! i)"
  by (simp add: iloc_def Let_def)

lemma check_exit_returns:
  assumes "i < length (data s)"
  shows "\<exists>r. check_exit_conditions s (int i) = Inr r"
  using iloc_in_range [OF assms]
  by (simp add: check_exit_conditions_def split: option.split)

lemma entry_step_returns:
  assumes "i < length (data s)" and "\<forall>s' j. \<exists>sg. gen s' j = Inr sg"
  shows "\<exists>s' cs'. entry_step gen i (s, cs) = Inr (s', cs') \<and> data s' = data s"
proof (cases "current_position s")
  case (Some pos)
  then show ?thesis by (simp add: entry_step_def)
next
  case None
  from assms(2) obtain sg where g: "gen s (int i) = Inr sg" by blast
  show ?thesis
  proof (cases sg)
    case no: None
    with None g show ?thesis by (simp add: entry_step_def)
  next
    case (Some d)
    obtain dir sl tp where "d = (dir, sl, tp)" by (cases d)
    with None g Some iloc_in_range [OF assms(1)] show ?thesis
      by (simp add: entry_step_def open_position_def)
  qed
qed

lemma bar_iter_returns:
  assumes "i < length (data s)" and "\<forall>s' j. \<exists>sg. gen s' j = Inr sg"
  shows "\<exists>s' cs'. bar_iter gen i (s, cs) = Inr (s', cs') \<and> data s' = data s"
proof (cases "i < 200")
  case True
  then show ?thesis by (simp add: bar_iter_def)
next
  case False
  show ?thesis
  proof (cases "current_position s")
    case None
    with False entry_step_returns [where gen = gen and cs = cs, OF assms] show ?thesis
      by (simp add: bar_iter_def)
  next
    case (Some pos)
    from check_exit_returns [OF assms(1)] obtain r where
      ce: "check_exit_conditions s (int i) = Inr r" by blast
    show ?thesis
    proof (cases r)
      case None
      with False Some ce entry_step_returns [where gen = gen and cs = "cs @ [CheckExit i]", OF assms] show ?thesis
        by (simp add: bar_iter_def)
    next
      case sm: (Some xr)
      obtain xp reason where xr: "xr = (xp, reason)" by (cases xr)
      from close_position_returns [where xp = xp and reason = reason, OF Some iloc_in_range [OF assms(1)]]
      obtain s' where cl: "close_position s (int i) xp reason = Inr s'" by blast
      from close_position_Some(1) [OF Some cl] have "data s' = data s" .
      with False Some ce sm xr cl show ?thesis by (simp add: bar_iter_def)
    qed
  qed
qed

lemma loop_returns:
  assumes "\<forall>i \<in> set bars. i < length (data s)" and "\<forall>s' j. \<exists>sg. gen s' j = Inr sg"
  shows "\<exists>s' cs'. loop gen bars (s, cs) = Inr (s', cs') \<and> data s' = data s"
  using assms(1)
proof (induction bars arbitrary: s cs)
  case Nil
  then show ?case by simp
next
  case (Cons i rest)
  from Cons.prems have "i < length (data s)" by simp
  from bar_iter_returns [where gen = gen and cs = cs, OF this assms(2)] obtain s1 cs1 where
    b: "bar_iter gen i (s, cs) = Inr (s1, cs1)" and d: "data s1 = data s" by blast
  from Cons.prems d have "\<forall>j \<in> set rest. j < length (data s1)" by simp
  from Cons.IH [where cs = cs1, OF this] b d show ?case by simp
qed

lemma run_backtest_returns:
  assumes "data s \<noteq> []" and "\<forall>s' j. \<exists>sg. gen s' j = Inr sg"
  shows "\<exists>s' cs. run_backtest gen s = Inr (s', cs)"
proof -
  from assms(1) have hdr: "iloc (data s) 0 = Inr (data s ! 0)"
    "iloc (data s) (- 1) = Inr (data s ! nat (int (length (data s)) - 1))"
    by (simp_all add: iloc_def Let_def)
  from loop_returns [where gen = gen and bars = "[0 ..< length (data s)]" and s = s and cs = "[]", OF _ assms(2)]
  obtain s1 cs1 where lp: "loop gen [0 ..< length (data s)] (s, []) = Inr (s1, cs1)"
    and d: "data s1 = data s" by auto
  show ?thesis
  proof (cases "current_position s1")
    case None
    with hdr lp show ?thesis by (simp add: run_backtest_def)
  next
    case (Some pos)
    from assms(1) d have last: "iloc (data s1) (int (length (data s1)) - 1)
        = Inr (data s1 ! nat (int (length (data s1)) - 1))"
      by (simp add: iloc_def Let_def)
    from close_position_returns [OF Some last] obtain s2 where
      "close_position s1 (int (length (data s1)) - 1)
         (close (data s1 ! nat (int (length (data s1)) - 1))) ''End'' = Inr s2"
      by blast
    with hdr lp Some last show ?thesis by (simp add: run_backtest_def Let_def)
  qed
qed

lemma compounded_finite:
  assumes "\<forall>t \<in> set ts. np_finite (profit_loss_pct t)"
  shows "np_finite (compounded ic ts)
         \<and> np_val (compounded ic ts)
             = ic * prod_list (map (\<lambda>t. 1 + np_val (profit_loss_pct t) / 100) ts)"
  using assms
proof (induction ts rule: rev_induct)
  case Nil
  then show ?case by (simp add: compounded_def)
next
  case (snoc t ts)
  then have ih: "np_finite (compounded ic ts)"
    "np_val (compounded ic ts)
       = ic * prod_list (map (\<lambda>t. 1 + np_val (profit_loss_pct t) / 100) ts)"
    and ft: "np_finite (profit_loss_pct t)"
    by simp_all
  from np_div_finite [OF ft, of 100]
  have d: "np_finite (np_div (profit_loss_pct t) (Num 100))"
    "np_val (np_div (profit_loss_pct t) (Num 100)) = np_val (profit_loss_pct t) / 100"
    by simp_all
  from np_add_finite [of "Num 1", OF _ d(1)] d(2)
  have a: "np_finite (np_add (Num 1) (np_div (profit_loss_pct t) (Num 100)))"
    "np_val (np_add (Num 1) (np_div (profit_loss_pct t) (Num 100)))
       = 1 + np_val (profit_loss_pct t) / 100"
    by simp_all
  from np_mul_finite [OF ih(1) a(1)] ih(2) a(2) show ?case
    by (simp add: compounded_snoc)
qed

text \<open>
  C3. After a run of the backtest on a freshly constructed engine, the current capital is
  the initial capital multiplied, trade by trade in order, by \<open>1 + profit_loss_pct / 100\<close>
  of every recorded trade, in float arithmetic. When every recorded percentage is finite
  this is the real number \<open>initial_capital * \<Prod> (1 + profit_loss_pct / 100)\<close>.
  (Lemma \<open>run_backtest_returns\<close> below: a run on a non-empty series returns unless the
  strategy raises.)
\<close>

theorem run_backtest_capital:
  assumes "run_backtest gen (init d ic cr) = Inr (s', cs')"
  shows "current_capital s' = compounded ic (trades s')
         \<and> ((\<forall>t \<in> set (trades s'). np_finite (profit_loss_pct t)) \<longrightarrow>
              np_val (current_capital s')
                = ic * prod_list (map (\<lambda>t. 1 + np_val (profit_loss_pct t) / 100) (trades s')))"
proof -
  have c: "current_capital s' = compounded ic (trades s')"
    by (rule run_backtest_capital_inv [OF assms]) (simp add: init_def compounded_def)
  with compounded_finite [of "trades s'" ic] show ?thesis by simp
qed

lemma example_data_length: "length example_data = 202"
  by (simp add: example_data_def)

lemma example_data_200: "example_data ! 200 = example_bar 200 101 99 100"
  by (simp add: example_data_def nth_append)

lemma example_data_201: "example_data ! 201 = example_bar 201 125 85 95"
  by (simp add: example_data_def nth_append)

lemma iloc_example_200: "iloc example_data 200 = Inr (example_bar 200 101 99 100)"
  by (simp add: iloc_def example_data_length example_data_200)

lemma iloc_example_201: "iloc example_data 201 = Inr (example_bar 201 125 85 95)"
  by (simp add: iloc_def example_data_length example_data_201)

lemma loop_append:
  "loop gen (xs @ ys) st =
     (case loop gen xs st of Inl e \<Rightarrow> Inl e | Inr st' \<Rightarrow> loop gen ys st')"
  by (induction xs arbitrary: st) (auto split: sum.splits)

lemma loop_warmup:
  "\<forall>i \<in> set bars. i < 200 \<Longrightarrow> loop gen bars st = Inr st"
  by (induction bars arbitrary: st) (auto simp: bar_iter_def split: prod.splits)

lemma loop_skip_warmup:
  assumes "200 \<le> n"
  shows "loop gen [0 ..< n] st = loop gen [200 ..< n] st"
proof -
  from assms have "[0 ..< n] = [0 ..< 200] @ [200 ..< n]"
    by (metis le_add_diff_inverse upt_add_eq_append zero_le)
  then show ?thesis by (simp add: loop_append loop_warmup)
qed

theorem check_exit_sl_first_witness:
  "check_exit_conditions (example_engine\<lparr>current_position := Some example_long\<rparr>) 201
     = Inr (Some (90, ''SL''))
   \<and> check_exit_conditions (example_engine\<lparr>current_position := Some example_short\<rparr>) 201
     = Inr (Some (110, ''SL''))"
  using check_exit_sl_first
          [of "example_engine\<lparr>current_position := Some example_long\<rparr>" example_long 201
              "example_bar 201 125 85 95"]
        check_exit_sl_first
          [of "example_engine\<lparr>current_position := Some example_short\<rparr>" example_short 201
              "example_bar 201 125 85 95"]
  by (simp add: example_engine_def init_def iloc_example_201 example_long_def
        example_short_def example_bar_def)

lemma example_close:
  "close_position (example_engine\<lparr>current_position := Some example_long\<rparr>) 201 90 ''SL''
     = Inr (example_engine\<lparr>current_capital := Num 880, trades := [example_trade]\<rparr>)"
  by (simp add: close_position_def Let_def example_engine_def init_def iloc_example_201
        example_long_def example_bar_def example_trade_def np_div_def np_mul_def np_add_def)

lemma example_zero_data_length: "length example_zero_data = 202"
  by (simp add: example_zero_data_def)

lemma iloc_example_zero_200: "iloc example_zero_data 200 = Inr (example_bar 200 1 0 0)"
  by (simp add: iloc_def example_zero_data_length) (simp add: example_zero_data_def nth_append)

lemma iloc_example_zero_201: "iloc example_zero_data 201 = Inr (example_bar 201 1 0 0)"
  by (simp add: iloc_def example_zero_data_length) (simp add: example_zero_data_def nth_append)

lemma example_zero_close:
  "close_position (example_zero_engine\<lparr>current_position := Some example_zero_short\<rparr>) 201 1 ''SL''
     = Inr (example_zero_engine\<lparr>current_capital := NegInf, trades := [example_zero_trade]\<rparr>)"
  by (simp add: close_position_def Let_def example_zero_engine_def init_def iloc_example_zero_201
        example_zero_short_def example_bar_def example_zero_trade_def np_div_def np_mul_def
        np_add_def signed_inf_def)

theorem close_position_trade_witness:
  "close_position (example_engine\<lparr>current_position := Some example_long\<rparr>) 201 90 ''SL''
     = Inr (example_engine\<lparr>current_capital := Num 880, trades := [example_trade]\<rparr>)
   \<and> commission_paid example_trade = 100 * (1 / 100) * 2
   \<and> profit_loss example_trade = (90 - 100) - commission_paid example_trade
   \<and> profit_loss_pct example_trade = np_mul (np_div (Num (- 12)) (Num 100)) (Num 100)
   \<and> np_val (profit_loss_pct example_trade) = - 12 / 100 * 100
   \<and> close_position (example_zero_engine\<lparr>current_position := Some example_zero_short\<rparr>)
         201 1 ''SL''
     = Inr (example_zero_engine\<lparr>current_capital := NegInf, trades := [example_zero_trade]\<rparr>)
   \<and> profit_loss example_zero_trade = (0 - 1) - commission_paid example_zero_trade
   \<and> profit_loss_pct example_zero_trade = np_mul (np_div (Num (- 1)) (Num 0)) (Num 100)"
proof -
  have 1: "current_position (example_engine\<lparr>current_position := Some example_long\<rparr>)
      = Some example_long"
    and 2: "iloc (data (example_engine\<lparr>current_position := Some example_long\<rparr>)) 201
      = Inr (example_bar 201 125 85 95)"
    by (simp_all add: example_engine_def init_def iloc_example_201)
  have 3: "current_position (example_zero_engine\<lparr>current_position := Some example_zero_short\<rparr>)
      = Some example_zero_short"
    and 4: "iloc (data (example_zero_engine\<lparr>current_position := Some example_zero_short\<rparr>)) 201
      = Inr (example_bar 201 1 0 0)"
    by (simp_all add: example_zero_engine_def init_def iloc_example_zero_201)
  from close_position_trade [OF 1 2, of 90 "''SL''"]
    close_position_trade [OF 3 4, of 1 "''SL''"]
    example_close example_zero_close
  show ?thesis
    by (simp add: example_engine_def example_zero_engine_def init_def example_long_def
          example_zero_short_def example_trade_def example_zero_trade_def
          np_div_def np_mul_def signed_inf_def)
qed

theorem close_position_flat_noop_witness:
  "close_position example_engine (- 7) 90 ''SL'' = Inr example_engine"
  using close_position_flat_noop [of example_engine "- 7" 90 "''SL''"]
  by (simp add: example_engine_def init_def)

lemma example_run:
  "run_backtest example_strategy example_engine =
     Inr (example_engine\<lparr>current_capital := Num 880, trades := [example_trade]\<rparr>,
          [GenerateSignal 200, OpenPosition 200 False, CheckExit 201, ClosePosition 201 ''SL''])"
proof -
  have d: "data example_engine = example_data" by (simp add: example_engine_def init_def)
  have flat: "current_position example_engine = None"
    by (simp add: example_engine_def init_def)
  have op: "open_position example_engine 200 ''long'' 100 90 120
      = Inr (example_engine\<lparr>current_position := Some example_long\<rparr>)"
    by (simp add: open_position_def d iloc_example_200 example_bar_def example_long_def)
  have b200: "bar_iter example_strategy 200 (example_engine, [])
      = Inr (example_engine\<lparr>current_position := Some example_long\<rparr>,
             [GenerateSignal 200, OpenPosition 200 False])"
    by (simp add: bar_iter_def entry_step_def flat example_strategy_def d iloc_example_200
          example_bar_def op [unfolded example_bar_def])
  have ce: "check_exit_conditions (example_engine\<lparr>current_position := Some example_long\<rparr>) 201
      = Inr (Some (90, ''SL''))"
    by (simp add: check_exit_conditions_def d iloc_example_201 example_long_def example_bar_def)
  have b201: "bar_iter example_strategy 201
       (example_engine\<lparr>current_position := Some example_long\<rparr>,
        [GenerateSignal 200, OpenPosition 200 False])
      = Inr (example_engine\<lparr>current_capital := Num 880, trades := [example_trade]\<rparr>,
          [GenerateSignal 200, OpenPosition 200 False, CheckExit 201, ClosePosition 201 ''SL''])"
    by (simp add: bar_iter_def ce example_close)
  have lp: "loop example_strategy [0 ..< 202] (example_engine, [])
      = Inr (example_engine\<lparr>current_capital := Num 880, trades := [example_trade]\<rparr>,
          [GenerateSignal 200, OpenPosition 200 False, CheckExit 201, ClosePosition 201 ''SL''])"
    by (simp add: loop_skip_warmup upt_rec [of 200] upt_rec [of 201] upt_rec [of 202] b200 b201)
  have hdr: "iloc example_data 0 = Inr (example_data ! 0)"
    "iloc example_data (- 1) = Inr (example_data ! 201)"
    by (simp_all add: iloc_def example_data_length)
  show ?thesis
    by (simp add: run_backtest_def d hdr example_data_length lp flat)
qed

lemma example_zero_run:
  "run_backtest example_zero_strategy example_zero_engine =
     Inr (example_zero_engine\<lparr>current_capital := NegInf, trades := [example_zero_trade]\<rparr>,
          [GenerateSignal 200, OpenPosition 200 False, CheckExit 201, ClosePosition 201 ''SL''])"
proof -
  have d: "data example_zero_engine = example_zero_data"
    by (simp add: example_zero_engine_def init_def)
  have flat: "current_position example_zero_engine = None"
    by (simp add: example_zero_engine_def init_def)
  have op: "open_position example_zero_engine 200 ''short'' 0 1 (- 2)
      = Inr (example_zero_engine\<lparr>current_position := Some example_zero_short\<rparr>)"
    by (simp add: open_position_def d iloc_example_zero_200 example_bar_def
          example_zero_short_def)
  have b200: "bar_iter example_zero_strategy 200 (example_zero_engine, [])
      = Inr (example_zero_engine\<lparr>current_position := Some example_zero_short\<rparr>,
             [GenerateSignal 200, OpenPosition 200 False])"
    by (simp add: bar_iter_def entry_step_def flat example_zero_strategy_def d
          iloc_example_zero_200 example_bar_def op [unfolded example_bar_def])
  have ce: "check_exit_conditions
        (example_zero_engine\<lparr>current_position := Some example_zero_short\<rparr>) 201
      = Inr (Some (1, ''SL''))"
    by (simp add: check_exit_conditions_def d iloc_example_zero_201 example_zero_short_def
          example_bar_def)
  have b201: "bar_iter example_zero_strategy 201
       (example_zero_engine\<lparr>current_position := Some example_zero_short\<rparr>,
        [GenerateSignal 200, OpenPosition 200 False])
      = Inr (example_zero_engine\<lparr>current_capital := NegInf, trades := [example_zero_trade]\<rparr>,
          [GenerateSignal 200, OpenPosition 200 False, CheckExit 201, ClosePosition 201 ''SL''])"
    by (simp add: bar_iter_def ce example_zero_close)
  have lp: "loop example_zero_strategy [0 ..< 202] (example_zero_engine, [])
      = Inr (example_zero_engine\<lparr>current_capital := NegInf, trades := [example_zero_trade]\<rparr>,
          [GenerateSignal 200, OpenPosition 200 False, CheckExit 201, ClosePosition 201 ''SL''])"
    by (simp add: loop_skip_warmup upt_rec [of 200] upt_rec [of 201] upt_rec [of 202] b200 b201)
  have hdr: "iloc example_zero_data 0 = Inr (example_zero_data ! 0)"
    "iloc example_zero_data (- 1) = Inr (example_zero_data ! 201)"
    by (simp_all add: iloc_def example_zero_data_length)
  show ?thesis
    by (simp add: run_backtest_def d hdr example_zero_data_length lp flat)
qed

theorem run_backtest_capital_witness:
  "run_backtest example_strategy (init example_data 1000 (1 / 100)) =
     Inr (example_engine\<lparr>current_capital := Num 880, trades := [example_trade]\<rparr>,
          [GenerateSignal 200, OpenPosition 200 False, CheckExit 201, ClosePosition 201 ''SL''])
   \<and> compounded 1000 [example_trade] = Num 880
   \<and> 1000 * prod_list (map (\<lambda>t. 1 + np_val (profit_loss_pct t) / 100) [example_trade]) = (880::real)
   \<and> run_backtest example_zero_strategy (init example_zero_data 1000 (1 / 100)) =
     Inr (example_zero_engine\<lparr>current_capital := NegInf, trades := [example_zero_trade]\<rparr>,
          [GenerateSignal 200, OpenPosition 200 False, CheckExit 201, ClosePosition 201 ''SL''])
   \<and> compounded 1000 [example_zero_trade] = NegInf"
  using run_backtest_capital [OF example_run [unfolded example_engine_def]]
    run_backtest_capital [OF example_zero_run [unfolded example_zero_engine_def]]
    example_run [unfolded example_engine_def]
    example_zero_run [unfolded example_zero_engine_def]
  by (simp add: init_def example_engine_def example_zero_engine_def example_trade_def)

lemma bar_iter_no_open_held:
  assumes "bar_iter gen i (s, cs) = Inr (s', cs')" and "OpenPosition j True \<notin> set cs"
  shows "OpenPosition j True \<notin> set cs'"
  using assms(1)
  by (cases rule: bar_iter_cases) (use assms(2) in simp_all)

lemma loop_no_open_held:
  assumes "loop gen bars (s, cs) = Inr (s', cs')" and "OpenPosition j True \<notin> set cs"
  shows "OpenPosition j True \<notin> set cs'"
proof -
  let ?P = "\<lambda>st. OpenPosition j True \<notin> set (snd st)"
  have "?P (s', cs')"
  proof (rule loop_invariant [where P = ?P, OF assms(1)])
    show "?P (s, cs)" using assms(2) by simp
  next
    fix i a b
    assume "?P a" and "bar_iter gen i a = Inr b"
    then show "?P b"
      using bar_iter_no_open_held [of gen i "fst a" "snd a" "fst b" "snd b" j] by simp
  qed
  then show ?thesis by simp
qed

text \<open>
  C4. In the log of a complete run, and in the log of the first \<open>k\<close> iterations of
  the loop (so also up to the point where a run fails), no call of
  \<^verbatim>\<open>open_position\<close> is made while a position is held: a position is opened only
  from the flat state. The engine holds at most one position by its type.
\<close>

theorem run_backtest_opens_only_flat:
  assumes "run_backtest gen s = Inr (s', cs) \<or> loop gen [0 ..< k] (s, []) = Inr (s', cs)"
  shows "OpenPosition i True \<notin> set cs"
  using assms
proof
  assume "run_backtest gen s = Inr (s', cs)"
  then show ?thesis
  proof (cases rule: run_backtest_cases)
    case flat
    from loop_no_open_held [OF flat(2)] show ?thesis by simp
  next
    case (forced s1 cs1 pos row)
    from loop_no_open_held [OF forced(2), of i] forced(6) show ?thesis by simp
  qed
next
  assume "loop gen [0 ..< k] (s, []) = Inr (s', cs)"
  from loop_no_open_held [OF this] show ?thesis by simp
qed

theorem run_backtest_opens_only_flat_witness:
  "run_backtest example_strategy example_engine =
     Inr (example_engine\<lparr>current_capital := Num 880, trades := [example_trade]\<rparr>,
          [GenerateSignal 200, OpenPosition 200 False, CheckExit 201, ClosePosition 201 ''SL''])
   \<and> OpenPosition 200 True \<notin>
       set [GenerateSignal 200, OpenPosition 200 False, CheckExit 201, ClosePosition 201 ''SL'']"
  using run_backtest_opens_only_flat [OF disjI1 [OF example_run], of 200] example_run
  by simp

lemma run_backtest_warmup_only:
  assumes "data s \<noteq> []" and "length (data s) \<le> 200" and "current_position s = None"
  shows "run_backtest gen s = Inr (s, [])"
proof -
  from assms(1) have hdr: "iloc (data s) 0 = Inr (data s ! 0)"
    "iloc (data s) (- 1) = Inr (data s ! nat (int (length (data s)) - 1))"
    by (simp_all add: iloc_def Let_def)
  from assms(2) have "loop gen [0 ..< length (data s)] (s, []) = Inr (s, [])"
    by (intro loop_warmup) auto
  with hdr assms(3) show ?thesis by (simp add: run_backtest_def)
qed

text \<open>
  C7, as amended. The constructor checks nothing: it stores any initial capital and any
  commission rate as given. A run on a non-empty series no longer than the warm-up of 200
  bars ends without error: no call is made, no trade is recorded and the engine is
  unchanged.
\<close>

theorem run_backtest_unvalidated:
  assumes "d \<noteq> []" and "length d \<le> 200"
  shows "initial_capital (init d ic cr) = ic \<and> commission_rate (init d ic cr) = cr
         \<and> run_backtest gen (init d ic cr) = Inr (init d ic cr, [])"
proof -
  have "run_backtest gen (init d ic cr) = Inr (init d ic cr, [])"
    by (rule run_backtest_warmup_only) (use assms in \<open>simp_all add: init_def\<close>)
  then show ?thesis by (simp add: init_def)
qed

theorem run_backtest_unvalidated_witness:
  "initial_capital (init [example_bar 0 1 1 1] 0 (- 1)) = 0
   \<and> commission_rate (init [example_bar 0 1 1 1] 0 (- 1)) = - 1
   \<and> run_backtest generate_signal (init [example_bar 0 1 1 1] 0 (- 1))
       = Inr (init [example_bar 0 1 1 1] 0 (- 1), [])"
  using run_backtest_unvalidated [of "[example_bar 0 1 1 1]" 0 "- 1" generate_signal]
  by simp

text \<open>
  C7 as stated fails: with a negative initial capital, a negative commission rate and a
  series of one bar, construction and run go through and return the engine unchanged.
\<close>

theorem configuration_error_counterexample:
  "run_backtest generate_signal (init [example_bar 0 1 1 1] (- 1) (- 1))
     = Inr (init [example_bar 0 1 1 1] (- 1) (- 1), [])"
  by (simp add: run_backtest_def init_def iloc_def bar_iter_def)

lemma bar_iter_warm:
  assumes step: "bar_iter gen i (s1, cs1) = Inr (s2, cs2)"
    and inv: "warm_inv d ts0 (s1, cs1)"
  shows "warm_inv d ts0 (s2, cs2)"
  using step
proof (cases rule: bar_iter_cases)
  case skip
  with inv show ?thesis by simp
next
  case (exit pos xp reason)
  from close_position_Some [OF exit(2) exit(4)]
  obtain t where c: "data s2 = data s1" "current_position s2 = None"
    "trades s2 = trades s1 @ [t]" "entry_time t = pos_entry_time pos"
    by auto
  from inv obtain new where n: "trades s1 = ts0 @ new"
    "\<forall>t \<in> set new. warm_entry d (entry_time t)"
    by (auto simp: warm_inv_def)
  from inv exit(2) have w: "warm_entry d (pos_entry_time pos)"
    by (simp add: warm_inv_def)
  have "trades s2 = ts0 @ (new @ [t])" using c(3) n(1) by simp
  moreover have "\<forall>u \<in> set (new @ [t]). warm_entry d (entry_time u)"
    using n(2) w c(4) by simp
  ultimately have "\<exists>new. trades s2 = ts0 @ new \<and> (\<forall>t \<in> set new. warm_entry d (entry_time t))"
    by blast
  moreover from inv have "data s1 = d" "\<forall>c \<in> set cs1. 200 \<le> call_bar c"
    by (simp_all add: warm_inv_def)
  ultimately show ?thesis
    using c(1,2) exit(1,5) by (simp add: warm_inv_def)
next
  case (hold pos)
  with inv show ?thesis by (simp add: warm_inv_def)
next
  case idle
  with inv show ?thesis by (simp add: warm_inv_def)
next
  case (enter dir sl tp row)
  from open_position_fields [OF enter(5)]
  obtain p where o: "data s2 = data s1" "trades s2 = trades s1"
    "current_position s2 = Some p" "i < length (data s1)"
    "pos_entry_time p = datetime (data s1 ! i)"
    by auto
  from inv have d: "data s1 = d" by (simp add: warm_inv_def)
  have "warm_entry d (pos_entry_time p)"
    unfolding warm_entry_def using o(4,5) d enter(1) by blast
  with inv o(1,2,3) enter(1,6) show ?thesis by (simp add: warm_inv_def)
qed

lemma loop_warm:
  assumes "loop gen bars (s, cs) = Inr (s', cs')" and "warm_inv d ts0 (s, cs)"
  shows "warm_inv d ts0 (s', cs')"
proof (rule loop_invariant [where P = "warm_inv d ts0", OF assms])
  fix i a b
  assume "warm_inv d ts0 a" and "bar_iter gen i a = Inr b"
  then show "warm_inv d ts0 b"
    using bar_iter_warm [of gen i "fst a" "snd a" "fst b" "snd b" d ts0] by simp
qed

lemma warm_inv_start: "current_position s = None \<Longrightarrow> warm_inv (data s) (trades s) (s, [])"
  by (simp add: warm_inv_def)

text \<open>
  C5. In a run that starts with no position held, every logged call (exit check, entry
  check, opening and closing of a position) is at a bar index of at least 200, and every
  trade the run records was entered at the time stamp of a bar of index at least 200.
  (A Trade stores its entry time, not its entry index. By lemma \<open>run_backtest_returns\<close>
  a run on a non-empty series returns unless the strategy raises, whatever the prices.)
\<close>

theorem run_backtest_warm_up:
  assumes "run_backtest gen s = Inr (s', cs)" and "current_position s = None"
  shows "(\<forall>c \<in> set cs. 200 \<le> call_bar c)
         \<and> (\<exists>new. trades s' = trades s @ new
               \<and> (\<forall>t \<in> set new. \<exists>i. 200 \<le> i \<and> i < length (data s)
                      \<and> entry_time t = datetime (data s ! i)))"
proof -
  have "warm_inv (data s) (trades s) (s', cs)"
    using assms(1)
  proof (cases rule: run_backtest_cases)
    case flat
    from loop_warm [OF flat(2) warm_inv_start [OF assms(2)]] show ?thesis .
  next
    case (forced s1 cs1 pos row)
    from loop_warm [OF forced(2) warm_inv_start [OF assms(2)]]
    have inv: "warm_inv (data s) (trades s) (s1, cs1)" .
    from close_position_Some [OF forced(3) forced(5)]
    obtain t where c: "data s' = data s1" "current_position s' = None"
      "trades s' = trades s1 @ [t]" "entry_time t = pos_entry_time pos"
      by auto
    from inv obtain new where n: "trades s1 = trades s @ new"
      "\<forall>t \<in> set new. warm_entry (data s) (entry_time t)"
      by (auto simp: warm_inv_def)
    from inv forced(3) have w: "warm_entry (data s) (pos_entry_time pos)"
      by (simp add: warm_inv_def)
    from inv have d: "data s1 = data s" and b: "\<forall>c \<in> set cs1. 200 \<le> call_bar c"
      by (simp_all add: warm_inv_def)
    from w have "200 < length (data s)" by (auto simp: warm_entry_def)
    then have last: "200 \<le> nat (int (length (data s1)) - 1)" using d by simp
    have "trades s' = trades s @ (new @ [t])" using c(3) n(1) by simp
    moreover have "\<forall>u \<in> set (new @ [t]). warm_entry (data s) (entry_time u)"
      using n(2) w c(4) by simp
    ultimately have "\<exists>new. trades s' = trades s @ new
        \<and> (\<forall>t \<in> set new. warm_entry (data s) (entry_time t))"
      by blast
    then show ?thesis
      using c(1,2) d b last forced(6) by (simp add: warm_inv_def)
  qed
  then show ?thesis by (simp add: warm_inv_def warm_entry_def)
qed

theorem run_backtest_warm_up_witness:
  "run_backtest example_strategy example_engine =
     Inr (example_engine\<lparr>current_capital := Num 880, trades := [example_trade]\<rparr>,
          [GenerateSignal 200, OpenPosition 200 False, CheckExit 201, ClosePosition 201 ''SL''])
   \<and> current_position example_engine = None
   \<and> list_all (\<lambda>c. 200 \<le> call_bar c)
        [GenerateSignal 200, OpenPosition 200 False, CheckExit 201, ClosePosition 201 ''SL'']
   \<and> entry_time example_trade = datetime (data example_engine ! 200)
   \<and> run_backtest example_zero_strategy example_zero_engine =
     Inr (example_zero_engine\<lparr>current_capital := NegInf, trades := [example_zero_trade]\<rparr>,
          [GenerateSignal 200, OpenPosition 200 False, CheckExit 201, ClosePosition 201 ''SL''])
   \<and> current_position example_zero_engine = None
   \<and> entry_time example_zero_trade = datetime (data example_zero_engine ! 200)"
proof -
  have flat: "current_position example_engine = None"
    by (simp add: example_engine_def init_def)
  have zflat: "current_position example_zero_engine = None"
    by (simp add: example_zero_engine_def init_def)
  have z200: "example_zero_data ! 200 = example_bar 200 1 0 0"
    by (simp add: example_zero_data_def nth_append)
  from run_backtest_warm_up [OF example_run flat]
    run_backtest_warm_up [OF example_zero_run zflat]
    example_run example_zero_run flat zflat
  show ?thesis
    by (simp add: example_engine_def example_zero_engine_def init_def example_trade_def
          example_zero_trade_def example_data_200 z200 example_bar_def)
qed

lemma exit_block_append:
  assumes "exit_block j r cs" and "\<forall>c \<in> set new. j < call_bar c"
  shows "exit_block j r (cs @ new)"
proof -
  from assms(1) obtain pre post where
    "cs = pre @ [CheckExit j, ClosePosition j r] @ post"
    "\<forall>c \<in> set pre. call_bar c < j" "\<forall>c \<in> set post. j < call_bar c"
    by (auto simp: exit_block_def)
  with assms(2) have "cs @ new = pre @ [CheckExit j, ClosePosition j r] @ (post @ new)
      \<and> (\<forall>c \<in> set pre. call_bar c < j) \<and> (\<forall>c \<in> set (post @ new). j < call_bar c)"
    by auto
  then show ?thesis unfolding exit_block_def by blast
qed

lemma exit_block_new:
  assumes "\<forall>c \<in> set cs. call_bar c < i"
  shows "exit_block i r (cs @ [CheckExit i, ClosePosition i r])"
proof -
  have "cs @ [CheckExit i, ClosePosition i r] = cs @ [CheckExit i, ClosePosition i r] @ []
      \<and> (\<forall>c \<in> set cs. call_bar c < i) \<and> (\<forall>c \<in> set ([]::call list). i < call_bar c)"
    using assms by simp
  then show ?thesis unfolding exit_block_def by blast
qed

lemma exit_inv_extend:
  assumes inv: "exit_inv d i (s, cs)"
    and new: "\<forall>c \<in> set new. call_bar c = i" "\<forall>r. ClosePosition i r \<notin> set new"
    and d: "data s' = d"
  shows "exit_inv d (Suc i) (s', cs @ new)"
proof -
  from inv have b: "\<forall>c \<in> set cs. call_bar c < i"
    and blk: "\<forall>j r. ClosePosition j r \<in> set cs \<longrightarrow> exit_block j r cs"
    by (simp_all add: exit_inv_def)
  have 1: "\<forall>c \<in> set (cs @ new). call_bar c < Suc i"
    using b new(1) by (auto simp: less_Suc_eq)
  have 2: "exit_block j r (cs @ new)" if m: "ClosePosition j r \<in> set (cs @ new)" for j r
  proof -
    from m new have old: "ClosePosition j r \<in> set cs" by auto
    with b have "j < i" by force
    with new(1) have "\<forall>c \<in> set new. j < call_bar c" by simp
    with blk old show ?thesis by (intro exit_block_append) simp_all
  qed
  have 3: "current_position s' = None"
    if m: "ClosePosition j r \<in> set (cs @ new)" and e: "Suc j = Suc i" for j r
  proof -
    from m new have "ClosePosition j r \<in> set cs" by auto
    with b have "j < i" by force
    with e show ?thesis by simp
  qed
  from 1 2 3 d show ?thesis unfolding exit_inv_def by simp blast
qed

lemma bar_iter_exit_inv:
  assumes step: "bar_iter gen i (s1, cs1) = Inr (s2, cs2)"
    and inv: "exit_inv d i (s1, cs1)"
  shows "exit_inv d (Suc i) (s2, cs2)"
  using step
proof (cases rule: bar_iter_cases)
  case skip
  from exit_inv_extend [OF inv, of "[]" s2] skip inv show ?thesis
    by (simp add: exit_inv_def)
next
  case (exit pos xp reason)
  from close_position_Some(1,4) [OF exit(2) exit(4)]
  have c: "data s2 = data s1" "current_position s2 = None" .
  from inv have b: "\<forall>c \<in> set cs1. call_bar c < i"
    and blk: "\<forall>j r. ClosePosition j r \<in> set cs1 \<longrightarrow> exit_block j r cs1"
    and d: "data s1 = d"
    by (simp_all add: exit_inv_def)
  let ?new = "[CheckExit i, ClosePosition i reason]"
  have 1: "\<forall>c \<in> set (cs1 @ ?new). call_bar c < Suc i"
    using b by (auto simp: less_Suc_eq)
  have 2: "exit_block j r (cs1 @ ?new)" if m: "ClosePosition j r \<in> set (cs1 @ ?new)" for j r
  proof (cases "ClosePosition j r \<in> set cs1")
    case True
    with b have "j < i" by force
    then have "\<forall>c \<in> set ?new. j < call_bar c" by simp
    with blk True show ?thesis by (intro exit_block_append) simp_all
  next
    case False
    with m have "j = i" "r = reason" by auto
    with exit_block_new [OF b, of reason] show ?thesis by simp
  qed
  from 1 2 c d exit(5) show ?thesis unfolding exit_inv_def by simp
next
  case (hold pos)
  from exit_inv_extend [OF inv, of "[CheckExit i]" s2] hold inv show ?thesis
    by (simp add: exit_inv_def)
next
  case idle
  from exit_inv_extend [OF inv, of "[GenerateSignal i]" s2] idle inv show ?thesis
    by (simp add: exit_inv_def)
next
  case (enter dir sl tp row)
  from open_position_fields(1) [OF enter(5)] inv have "data s2 = d"
    by (simp add: exit_inv_def)
  from exit_inv_extend [OF inv _ _ this, of "[GenerateSignal i, OpenPosition i False]"] enter(6)
  show ?thesis by simp
qed

lemma loop_upt_invariant:
  assumes "loop gen [a ..< b] st = Inr st'" and "P a st"
    and "\<And>i x y. a \<le> i \<Longrightarrow> i < b \<Longrightarrow> P i x \<Longrightarrow> bar_iter gen i x = Inr y \<Longrightarrow> P (Suc i) y"
  shows "P (max a b) st'"
  using assms
proof (induction "b - a" arbitrary: a st)
  case 0
  then show ?case by (simp add: max_def)
next
  case (Suc n)
  then have lt: "a < b" by simp
  then have upt: "[a ..< b] = a # [Suc a ..< b]" by (simp add: upt_conv_Cons)
  from Suc.prems(1) upt obtain mid where mid: "bar_iter gen a st = Inr mid"
    and rest: "loop gen [Suc a ..< b] mid = Inr st'"
    by (auto split: sum.splits)
  from Suc.prems(3) [of a st mid] lt Suc.prems(2) mid have pm: "P (Suc a) mid" by simp
  have "P (max (Suc a) b) st'"
  proof (rule Suc.hyps(1) [OF _ rest pm])
    show "n = b - Suc a" using Suc.hyps(2) by simp
  next
    fix i x y
    assume "Suc a \<le> i" "i < b" "P i x" "bar_iter gen i x = Inr y"
    then show "P (Suc i) y" using Suc.prems(3) [of i x y] by simp
  qed
  with lt show ?case by (simp add: max_def)
qed

lemma loop_exit_inv:
  assumes "loop gen [0 ..< n] (s, []) = Inr (s', cs)"
  shows "exit_inv (data s) n (s', cs)"
proof -
  have "exit_inv (data s) (max 0 n) (s', cs)"
  proof (rule loop_upt_invariant [where P = "exit_inv (data s)", OF assms])
    show "exit_inv (data s) 0 (s, [])" by (simp add: exit_inv_def)
  next
    fix i x y
    assume "exit_inv (data s) i x" and "bar_iter gen i x = Inr y"
    then show "exit_inv (data s) (Suc i) y"
      using bar_iter_exit_inv [of gen i "fst x" "snd x" "fst y" "snd y" "data s"] by simp
  qed
  then show ?thesis by simp
qed

lemma check_exit_reason:
  assumes "check_exit_conditions s i = Inr (Some (xp, reason))"
  shows "reason = ''SL'' \<or> reason = ''TP''"
  using assms
  by (auto simp: check_exit_conditions_def split: option.splits sum.splits if_splits)

text \<open>
  C6. When a complete run closes a position through an exit-condition match at bar \<open>i\<close>
  (a logged \<^verbatim>\<open>close_position\<close> whose reason is not \<^verbatim>\<open>'End'\<close>; the reasons of
  \<^verbatim>\<open>check_exit_conditions\<close> are \<^verbatim>\<open>'SL'\<close> and \<^verbatim>\<open>'TP'\<close>), the calls made at
  bar \<open>i\<close> are exactly the exit check and that close: every earlier call is at an earlier
  bar and every later call at a later bar. So the strategy is not evaluated and no
  position is opened at bar \<open>i\<close>. (By lemma \<open>run_backtest_returns\<close> a run on a
  non-empty series returns unless the strategy raises, whatever the prices.)
\<close>

theorem run_backtest_exit_ends_bar:
  assumes run: "run_backtest gen s = Inr (s', cs)"
    and cl: "ClosePosition i r \<in> set cs" and r: "r \<noteq> ''End''"
  shows "GenerateSignal i \<notin> set cs \<and> (\<forall>held. OpenPosition i held \<notin> set cs)
         \<and> (\<exists>pre post. cs = pre @ [CheckExit i, ClosePosition i r] @ post
               \<and> (\<forall>c \<in> set pre. call_bar c < i) \<and> (\<forall>c \<in> set post. i < call_bar c))"
proof -
  have blk: "exit_block i r cs"
    using run
  proof (cases rule: run_backtest_cases)
    case flat
    from loop_exit_inv [OF flat(2)] cl show ?thesis by (simp add: exit_inv_def)
  next
    case (forced s1 cs1 pos row)
    from loop_exit_inv [OF forced(2)]
    have inv: "exit_inv (data s) (length (data s)) (s1, cs1)" .
    from cl r forced(6) have old: "ClosePosition i r \<in> set cs1" by auto
    from inv old have b: "exit_block i r cs1" by (simp add: exit_inv_def)
    from inv old have "i < length (data s)" by (force simp: exit_inv_def)
    moreover from inv old forced(3) have "Suc i \<noteq> length (data s)"
      by (auto simp: exit_inv_def)
    moreover from inv have "data s1 = data s" by (simp add: exit_inv_def)
    ultimately have "i < nat (int (length (data s1)) - 1)" by simp
    then have "\<forall>c \<in> set [ClosePosition (nat (int (length (data s1)) - 1)) ''End'']. i < call_bar c"
      by simp
    from exit_block_append [OF b this] forced(6) show ?thesis by simp
  qed
  then obtain pre post where d: "cs = pre @ [CheckExit i, ClosePosition i r] @ post"
    "\<forall>c \<in> set pre. call_bar c < i" "\<forall>c \<in> set post. i < call_bar c"
    by (auto simp: exit_block_def)
  have "GenerateSignal i \<notin> set cs"
  proof
    assume "GenerateSignal i \<in> set cs"
    with d(1) have "GenerateSignal i \<in> set pre \<or> GenerateSignal i \<in> set post" by auto
    with d(2,3) show False by force
  qed
  moreover have "OpenPosition i held \<notin> set cs" for held
  proof
    assume "OpenPosition i held \<in> set cs"
    with d(1) have "OpenPosition i held \<in> set pre \<or> OpenPosition i held \<in> set post" by auto
    with d(2,3) show False by force
  qed
  ultimately show ?thesis using d by blast
qed

theorem run_backtest_exit_ends_bar_witness:
  "run_backtest example_strategy example_engine =
     Inr (example_engine\<lparr>current_capital := Num 880, trades := [example_trade]\<rparr>,
          [GenerateSignal 200, OpenPosition 200 False, CheckExit 201, ClosePosition 201 ''SL''])
   \<and> run_backtest example_zero_strategy example_zero_engine =
     Inr (example_zero_engine\<lparr>current_capital := NegInf, trades := [example_zero_trade]\<rparr>,
          [GenerateSignal 200, OpenPosition 200 False, CheckExit 201, ClosePosition 201 ''SL''])
   \<and> GenerateSignal 201 \<notin>
       set [GenerateSignal 200, OpenPosition 200 False, CheckExit 201, ClosePosition 201 ''SL'']
   \<and> OpenPosition 201 False \<notin>
       set [GenerateSignal 200, OpenPosition 200 False, CheckExit 201, ClosePosition 201 ''SL'']"
  using run_backtest_exit_ends_bar [OF example_run, of 201 "''SL''"]
    run_backtest_exit_ends_bar [OF example_zero_run, of 201 "''SL''"]
    example_run example_zero_run
  by simp

lemma capital_curve_hd: "hd (capital_curve ic ts) = Num ic"
proof -
  have "hd (foldl (\<lambda>curve t.
              curve @ [np_mul (last curve) (np_add (Num 1) (np_div (profit_loss_pct t) (Num 100)))])
            c ts) = hd c"
    if "c \<noteq> []" for c
    using that by (induction ts arbitrary: c) simp_all
  then show ?thesis by (simp add: capital_curve_def)
qed

lemma calculate_statistics_returns:
  assumes "initial_capital s \<noteq> 0"
  shows "\<exists>st. calculate_statistics s = Inr st"
  using assms by (simp add: calculate_statistics_def Let_def)

lemma calculate_statistics_raises:
  "calculate_statistics s = Inl e \<longleftrightarrow>
     trades s \<noteq> [] \<and> initial_capital s = 0 \<and> e = ZeroDivisionError"
  by (auto simp: calculate_statistics_def Let_def)

text \<open>
  C9. With an empty trade list \<^verbatim>\<open>calculate_statistics\<close> returns, without any error,
  the record whose counts, win rate, results, commission, averages, profit factor and
  maximum drawdown are all 0 and whose final capital is the initial capital. Whenever it
  returns with total losses equal to zero, the profit factor is 0, also for a non-empty
  trade list. (It returns unless the trade list is non-empty and the initial capital is
  zero: lemmas \<open>calculate_statistics_returns\<close> and \<open>calculate_statistics_raises\<close>.)
\<close>

theorem calculate_statistics_defaults:
  "(trades s = [] \<longrightarrow>
      calculate_statistics s =
        Inr \<lparr>total_trades = 0, winning_trades = 0, losing_trades = 0, win_rate = 0,
             total_profit_loss = 0, total_profit_loss_pct = Num 0, total_commission_paid = 0,
             avg_profit = 0, avg_loss = 0, profit_factor = 0, max_drawdown = Num 0,
             final_capital = Num (initial_capital s)\<rparr>)
   \<and> (\<forall>st. calculate_statistics s = Inr st \<longrightarrow> total_loss (trades s) = 0
          \<longrightarrow> profit_factor st = 0)"
proof (intro conjI impI allI)
  assume "trades s = []"
  then show "calculate_statistics s =
        Inr \<lparr>total_trades = 0, winning_trades = 0, losing_trades = 0, win_rate = 0,
             total_profit_loss = 0, total_profit_loss_pct = Num 0, total_commission_paid = 0,
             avg_profit = 0, avg_loss = 0, profit_factor = 0, max_drawdown = Num 0,
             final_capital = Num (initial_capital s)\<rparr>"
    by (simp add: calculate_statistics_def)
next
  fix st
  assume ret: "calculate_statistics s = Inr st" and zero: "total_loss (trades s) = 0"
  show "profit_factor st = 0"
  proof (cases "trades s = []")
    case True
    with ret show ?thesis by (auto simp: calculate_statistics_def)
  next
    case False
    with ret zero show ?thesis
      by (auto simp: calculate_statistics_def Let_def split: if_splits)
  qed
qed

theorem calculate_statistics_defaults_witness:
  "calculate_statistics example_engine =
      Inr \<lparr>total_trades = 0, winning_trades = 0, losing_trades = 0, win_rate = 0,
           total_profit_loss = 0, total_profit_loss_pct = Num 0, total_commission_paid = 0,
           avg_profit = 0, avg_loss = 0, profit_factor = 0, max_drawdown = Num 0,
           final_capital = Num 1000\<rparr>
   \<and> calculate_statistics (example_engine\<lparr>current_capital := Num 1180, trades := [example_win]\<rparr>) =
      Inr \<lparr>total_trades = 1, winning_trades = 1, losing_trades = 0, win_rate = 100,
           total_profit_loss = 18, total_profit_loss_pct = Num 18, total_commission_paid = 2,
           avg_profit = 18, avg_loss = 0, profit_factor = 0, max_drawdown = Num 0,
           final_capital = Num 1180\<rparr>
   \<and> total_loss [example_win] = 0"
proof -
  have e: "trades example_engine = []" "initial_capital example_engine = 1000"
    by (simp_all add: example_engine_def init_def)
  have w: "calculate_statistics (example_engine\<lparr>current_capital := Num 1180, trades := [example_win]\<rparr>) =
      Inr \<lparr>total_trades = 1, winning_trades = 1, losing_trades = 0, win_rate = 100,
           total_profit_loss = 18, total_profit_loss_pct = Num 18, total_commission_paid = 2,
           avg_profit = 18, avg_loss = 0, profit_factor = 0, max_drawdown = Num 0,
           final_capital = Num 1180\<rparr>"
    by (simp add: calculate_statistics_def Let_def e capital_curve_def example_win_def
          winning_def losing_def total_profit_def total_loss_def
          np_div_def np_mul_def np_add_def np_sub_def signed_zero_def)
  have z: "total_loss [example_win] = 0"
    by (simp add: total_loss_def losing_def example_win_def)
  from calculate_statistics_defaults [of example_engine]
    calculate_statistics_defaults
      [of "example_engine\<lparr>current_capital := Num 1180, trades := [example_win]\<rparr>"]
    e w z
  show ?thesis by simp
qed

lemma length_diff: "length (diff ps) = length ps"
  by (cases ps) simp_all

lemma length_ewm_from: "length (ewm_from \<alpha> y xs) = length xs"
  by (induction xs arbitrary: y) (simp_all add: Let_def)

lemma length_ewm_mean: "length (ewm_mean \<alpha> xs) = length xs"
  by (cases xs) (simp_all add: length_ewm_from)

lemma length_rsi_avg_gain: "length (rsi_avg_gain period ps) = length ps"
  by (simp add: rsi_avg_gain_def rsi_gain_def length_ewm_mean length_diff)

lemma length_rsi_avg_loss: "length (rsi_avg_loss period ps) = length ps"
  by (simp add: rsi_avg_loss_def rsi_loss_def length_ewm_mean length_diff)

lemma diff_shape: "d \<in> set (diff ps) \<Longrightarrow> d = NaN \<or> (\<exists>x. d = Num x)"
  by (cases ps) (auto simp: np_sub_Num dest!: set_zip_leftD)

lemma rsi_gain_shape:
  assumes "g \<in> set (rsi_gain ps)"
  shows "\<exists>x\<ge>0. g = Num x"
proof -
  from assms obtain d where d: "d \<in> set (diff ps)"
    and g: "g = (if np_less (Num 0) d then d else Num 0)"
    by (auto simp: rsi_gain_def)
  from diff_shape [OF d] show ?thesis
  proof
    assume "d = NaN"
    with g show ?thesis by simp
  next
    assume "\<exists>x. d = Num x"
    then obtain x where "d = Num x" ..
    with g show ?thesis by (cases "0 < x") auto
  qed
qed

lemma ewm_from_shape:
  assumes "0 \<le> \<alpha>" and "\<alpha> \<le> 1" and "0 \<le> y0"
    and "\<forall>x \<in> set xs. \<exists>r\<ge>0. x = Num r"
    and "v \<in> set (ewm_from \<alpha> (Num y0) xs)"
  shows "\<exists>r\<ge>0. v = Num r"
  using assms(3,4,5)
proof (induction xs arbitrary: y0)
  case Nil
  then show ?case by simp
next
  case (Cons x xs)
  from Cons.prems(2) obtain r where r: "0 \<le> r" "x = Num r" by auto
  let ?y = "(1 - \<alpha>) * y0 + \<alpha> * r"
  have step: "np_add (np_mul (Num (1 - \<alpha>)) (Num y0)) (np_mul (Num \<alpha>) x) = Num ?y"
    using assms(1,2) Cons.prems(1) r by (simp add: np_mul_Num np_add_Num)
  have nn: "0 \<le> ?y" using assms(1,2) Cons.prems(1) r(1) by simp
  from Cons.prems(3) step have "v = Num ?y \<or> v \<in> set (ewm_from \<alpha> (Num ?y) xs)"
    by (simp add: Let_def)
  then show ?case
  proof
    assume "v = Num ?y"
    with nn show ?thesis by blast
  next
    assume "v \<in> set (ewm_from \<alpha> (Num ?y) xs)"
    from Cons.IH [OF nn _ this] Cons.prems(2) show ?thesis by simp
  qed
qed

lemma span_alpha_range: "1 \<le> period \<Longrightarrow> 0 < span_alpha period \<and> span_alpha period \<le> 1"
  by (simp add: span_alpha_def)

lemma rsi_avg_gain_shape:
  assumes "1 \<le> period" and "v \<in> set (rsi_avg_gain period ps)"
  shows "\<exists>r\<ge>0. v = Num r"
proof (cases "rsi_gain ps")
  case Nil
  with assms(2) show ?thesis by (simp add: rsi_avg_gain_def)
next
  case (Cons x xs)
  have all: "\<forall>g \<in> set (x # xs). \<exists>r\<ge>0. g = Num r"
    using rsi_gain_shape [of _ ps] Cons by metis
  then obtain x0 where x0: "0 \<le> x0" "x = Num x0" by auto
  from assms(2) Cons x0 have "v = Num x0 \<or> v \<in> set (ewm_from (span_alpha period) (Num x0) xs)"
    by (simp add: rsi_avg_gain_def)
  then show ?thesis
  proof
    assume "v = Num x0"
    with x0 show ?thesis by blast
  next
    assume m: "v \<in> set (ewm_from (span_alpha period) (Num x0) xs)"
    from span_alpha_range [OF assms(1)] have "0 \<le> span_alpha period" "span_alpha period \<le> 1"
      by simp_all
    from ewm_from_shape [OF this x0(1) _ m] all show ?thesis by simp
  qed
qed

lemma rsi_value_zero_loss:
  assumes "np_zero l" and "0 \<le> g"
  shows "rsi_value (Num g) l = (if g = 0 then NaN else Num 100)"
proof -
  from assms(1) have "l = Num 0 \<or> l = NegZero" by (cases l) simp_all
  then show ?thesis
  proof
    assume "l = Num 0"
    with assms(2) show ?thesis
      by (simp add: rsi_value_def np_div_def np_add_def np_sub_def signed_inf_def
            signed_zero_def)
  next
    assume "l = NegZero"
    with assms(2) show ?thesis
      by (simp add: rsi_value_def np_div_def np_add_def np_sub_def signed_inf_def
            signed_zero_def)
  qed
qed

lemma diff_nth:
  assumes "i < length ps"
  shows "diff ps ! i = (if i = 0 then NaN else Num (ps ! i - ps ! (i - 1)))"
proof (cases ps)
  case Nil
  with assms show ?thesis by simp
next
  case (Cons p rest)
  show ?thesis
  proof (cases i)
    case 0
    with Cons show ?thesis by simp
  next
    case (Suc k)
    with assms Cons have "k < length rest" by simp
    with Cons Suc show ?thesis by (simp add: np_sub_Num)
  qed
qed

lemma flat_gain_loss:
  assumes "i < length ps" and "\<forall>j\<le>i. ps ! j = ps ! 0" and "j \<le> i"
  shows "rsi_gain ps ! j = Num 0" and "rsi_loss ps ! j = NegZero"
proof -
  from assms(1,3) have j: "j < length ps" by simp
  have d: "diff ps ! j = NaN \<or> diff ps ! j = Num 0"
  proof (cases j)
    case 0
    with diff_nth [OF j] show ?thesis by simp
  next
    case (Suc k)
    from assms(3) have "j - 1 \<le> i" by simp
    with assms(2) have b: "ps ! (j - 1) = ps ! 0" by blast
    from assms(2,3) have a: "ps ! j = ps ! 0" by blast
    from diff_nth [OF j] Suc have "diff ps ! j = Num (ps ! j - ps ! (j - 1))" by simp
    also have "\<dots> = Num 0" by (simp only: a b diff_self)
    finally show ?thesis by blast
  qed
  from j have jd: "j < length (diff ps)" by (simp add: length_diff)
  from d jd show "rsi_gain ps ! j = Num 0" by (auto simp: rsi_gain_def)
  from d jd show "rsi_loss ps ! j = NegZero" by (auto simp: rsi_loss_def)
qed

lemma ewm_from_const:
  assumes "np_add (np_mul (Num (1 - \<alpha>)) c) (np_mul (Num \<alpha>) c) = c"
    and "i < length xs" and "\<forall>j\<le>i. xs ! j = c"
  shows "ewm_from \<alpha> c xs ! i = c"
  using assms(2,3)
proof (induction xs arbitrary: i)
  case Nil
  then show ?case by simp
next
  case (Cons x xs)
  from Cons.prems(2) have x: "x = c" by force
  show ?case
  proof (cases i)
    case 0
    with x assms(1) show ?thesis by (simp add: Let_def)
  next
    case (Suc k)
    with Cons.prems have "k < length xs" "\<forall>j\<le>k. xs ! j = c" by auto
    from Cons.IH [OF this] Suc x assms(1) show ?thesis by (simp add: Let_def)
  qed
qed

lemma ewm_mean_const:
  assumes "np_add (np_mul (Num (1 - \<alpha>)) c) (np_mul (Num \<alpha>) c) = c"
    and "i < length xs" and "\<forall>j\<le>i. xs ! j = c"
  shows "ewm_mean \<alpha> xs ! i = c"
proof (cases xs)
  case Nil
  with assms(2) show ?thesis by simp
next
  case (Cons x rest)
  from assms(3) Cons have x: "x = c" by force
  show ?thesis
  proof (cases i)
    case 0
    with Cons x show ?thesis by simp
  next
    case (Suc k)
    with assms(2,3) Cons have "k < length rest" "\<forall>j\<le>k. rest ! j = c" by auto
    from ewm_from_const [OF assms(1) this] Cons Suc x show ?thesis by simp
  qed
qed

lemma ewm_fix_zero:
  assumes "0 \<le> \<alpha>" and "\<alpha> \<le> 1"
  shows "np_add (np_mul (Num (1 - \<alpha>)) (Num 0)) (np_mul (Num \<alpha>) (Num 0)) = Num 0"
    and "np_add (np_mul (Num (1 - \<alpha>)) NegZero) (np_mul (Num \<alpha>) NegZero) = NegZero"
  using assms by (simp_all add: np_mul_def np_add_def signed_zero_def)

lemma rsi_flat_prefix:
  assumes "1 \<le> period" and "i < length ps" and "\<forall>j\<le>i. ps ! j = ps ! 0"
  shows "rsi_avg_gain period ps ! i = Num 0" and "rsi_avg_loss period ps ! i = NegZero"
proof -
  from span_alpha_range [OF assms(1)]
  have a: "0 \<le> span_alpha period" "span_alpha period \<le> 1" by simp_all
  have lg: "i < length (rsi_gain ps)" and ll: "i < length (rsi_loss ps)"
    using assms(2) by (simp_all add: rsi_gain_def rsi_loss_def length_diff)
  have g: "\<forall>j\<le>i. rsi_gain ps ! j = Num 0" and l: "\<forall>j\<le>i. rsi_loss ps ! j = NegZero"
    using flat_gain_loss [OF assms(2,3)] by simp_all
  show "rsi_avg_gain period ps ! i = Num 0"
    unfolding rsi_avg_gain_def by (rule ewm_mean_const [OF ewm_fix_zero(1) [OF a] lg g])
  show "rsi_avg_loss period ps ! i = NegZero"
    unfolding rsi_avg_loss_def by (rule ewm_mean_const [OF ewm_fix_zero(2) [OF a] ll l])
qed

lemma rsi_value_zero_zero: "rsi_value (Num 0) NegZero = NaN"
  by (simp add: rsi_value_def np_div_def np_add_def np_sub_def)

text \<open>
  C8, as amended. \<^verbatim>\<open>calculate_rsi\<close> never fails with a division by zero. For a period
  of at least 1 it returns a series as long as the input, and at every index where the
  smoothed average loss is zero the result is 100 when the smoothed average gain is not
  zero, and NaN when it is zero too (\<open>0/0\<close>). Both averages are zero, and the result
  is NaN, at index 0 of every non-empty series and at every index up to which the price
  has not moved.
\<close>

theorem calculate_rsi_zero_loss:
  "calculate_rsi s period price_column \<noteq> Inl ZeroDivisionError
   \<and> (1 \<le> period \<longrightarrow>
        (\<exists>rsi. calculate_rsi s period price_column = Inr rsi
           \<and> length rsi = length (data s)
           \<and> (\<forall>i < length (data s).
                np_zero (rsi_avg_loss period (map price_column (data s)) ! i) \<longrightarrow>
                  rsi ! i =
                    (if np_zero (rsi_avg_gain period (map price_column (data s)) ! i)
                     then NaN else Num 100))
           \<and> (data s \<noteq> [] \<longrightarrow>
                np_zero (rsi_avg_loss period (map price_column (data s)) ! 0)
                \<and> np_zero (rsi_avg_gain period (map price_column (data s)) ! 0)
                \<and> rsi ! 0 = NaN)
           \<and> (\<forall>i < length (data s).
                (\<forall>j\<le>i. price_column (data s ! j) = price_column (data s ! 0)) \<longrightarrow>
                  np_zero (rsi_avg_loss period (map price_column (data s)) ! i)
                  \<and> np_zero (rsi_avg_gain period (map price_column (data s)) ! i)
                  \<and> rsi ! i = NaN)))"
proof (intro conjI impI)
  show "calculate_rsi s period price_column \<noteq> Inl ZeroDivisionError"
    by (simp add: calculate_rsi_def Let_def)
next
  assume p: "1 \<le> period"
  let ?ps = "map price_column (data s)"
  let ?g = "rsi_avg_gain period ?ps" and ?l = "rsi_avg_loss period ?ps"
  let ?rsi = "map (\<lambda>(g, l). rsi_value g l) (zip ?g ?l)"
  have ret: "calculate_rsi s period price_column = Inr ?rsi"
    using p by (simp add: calculate_rsi_def Let_def)
  have len: "length ?rsi = length (data s)"
    by (simp add: length_rsi_avg_gain length_rsi_avg_loss)
  have val: "?rsi ! i = rsi_value (?g ! i) (?l ! i)" if "i < length (data s)" for i
    using that by (simp add: length_rsi_avg_gain length_rsi_avg_loss)
  have sat: "?rsi ! i = (if np_zero (?g ! i) then NaN else Num 100)"
    if i: "i < length (data s)" and z: "np_zero (?l ! i)" for i
  proof -
    from i have ig: "i < length ?g" by (simp add: length_rsi_avg_gain)
    then have "?g ! i \<in> set ?g" by (rule nth_mem)
    from rsi_avg_gain_shape [OF p this] obtain r where r: "0 \<le> r" "?g ! i = Num r" by auto
    from rsi_value_zero_loss [OF z r(1)] val [OF i] r(2) show ?thesis by simp
  qed
  have flat: "np_zero (?l ! i) \<and> np_zero (?g ! i) \<and> ?rsi ! i = NaN"
    if i: "i < length (data s)"
      and f: "\<forall>j\<le>i. price_column (data s ! j) = price_column (data s ! 0)" for i
  proof -
    from i have il: "i < length ?ps" by simp
    have "\<forall>j\<le>i. ?ps ! j = ?ps ! 0"
    proof (intro allI impI)
      fix j
      assume ji: "j \<le> i"
      with i have "j < length (data s)" and "0 < length (data s)" by auto
      then have "?ps ! j = price_column (data s ! j)" and "?ps ! 0 = price_column (data s ! 0)"
        by (simp_all only: nth_map)
      moreover from f ji have "price_column (data s ! j) = price_column (data s ! 0)" by blast
      ultimately show "?ps ! j = ?ps ! 0" by (simp only:)
    qed
    from rsi_flat_prefix [OF p il this] val [OF i] show ?thesis
      by (simp add: rsi_value_zero_zero)
  qed
  have first: "np_zero (?l ! 0) \<and> np_zero (?g ! 0) \<and> ?rsi ! 0 = NaN" if "data s \<noteq> []"
    using that flat [of 0] by simp
  from ret len sat flat first
  show "\<exists>rsi. calculate_rsi s period price_column = Inr rsi
           \<and> length rsi = length (data s)
           \<and> (\<forall>i < length (data s).
                np_zero (?l ! i) \<longrightarrow> rsi ! i = (if np_zero (?g ! i) then NaN else Num 100))
           \<and> (data s \<noteq> [] \<longrightarrow> np_zero (?l ! 0) \<and> np_zero (?g ! 0) \<and> rsi ! 0 = NaN)
           \<and> (\<forall>i < length (data s).
                (\<forall>j\<le>i. price_column (data s ! j) = price_column (data s ! 0)) \<longrightarrow>
                  np_zero (?l ! i) \<and> np_zero (?g ! i) \<and> rsi ! i = NaN)"
    by blast
qed

lemma example_rsi:
  "calculate_rsi (init example_prices 1000 0) 14 close
     = Inr [NaN, Num 100, Num 100, Num (16900 / 619)]"
  by code_simp

lemma example_rsi_avg:
  "rsi_avg_loss 14 (map close example_prices) = [NegZero, NegZero, NegZero, Num (4 / 15)]"
  "rsi_avg_gain 14 (map close example_prices) = [Num 0, Num (2 / 15), Num (26 / 225), Num (338 / 3375)]"
  by code_simp+

lemma example_rsi_flat:
  "calculate_rsi (init example_flat 1000 0) 14 close = Inr [NaN, NaN]"
  by code_simp

theorem calculate_rsi_zero_loss_witness:
  "calculate_rsi (init example_prices 1000 0) 14 close
     = Inr [NaN, Num 100, Num 100, Num (16900 / 619)]
   \<and> rsi_avg_loss 14 (map close example_prices) = [NegZero, NegZero, NegZero, Num (4 / 15)]
   \<and> rsi_avg_gain 14 (map close example_prices)
       = [Num 0, Num (2 / 15), Num (26 / 225), Num (338 / 3375)]
   \<and> calculate_rsi (init example_flat 1000 0) 14 close = Inr [NaN, NaN]
   \<and> close (example_flat ! 1) = close (example_flat ! 0)"
  using calculate_rsi_zero_loss [of "init example_prices 1000 0" 14 close]
    calculate_rsi_zero_loss [of "init example_flat 1000 0" 14 close]
    example_rsi example_rsi_avg example_rsi_flat
  by (simp add: example_flat_def example_bar_def)

text \<open>
  C8 as stated fails at index 0 of every non-empty series: the first difference is NaN,
  so gain and loss are both zero there, and the result is NaN, not 100.
\<close>

theorem calculate_rsi_saturation_counterexample:
  "np_zero (rsi_avg_loss 14 (map close example_prices) ! 0)
   \<and> calculate_rsi (init example_prices 1000 0) 14 close
       = Inr [NaN, Num 100, Num 100, Num (16900 / 619)]
   \<and> [NaN, Num 100, Num 100, Num (16900 / 619)] ! 0 \<noteq> Num 100"
  using example_rsi example_rsi_avg by simp

end
